theory Spec2Isabelle
  imports Main "HOL-Library.Word"
begin

unbundle bit_operations_syntax

section \<open>The SOCKS4/SOCKS5 request header of header.go\<close>

subsection \<open>Constants\<close>

type_synonym byte = "8 word"

definition socks4Version :: byte where "socks4Version = 4"
definition socks5Version :: byte where "socks5Version = 5"

definition ConnectCommand :: byte where "ConnectCommand = 1"
definition BindCommand :: byte where "BindCommand = 2"
definition AssociateCommand :: byte where "AssociateCommand = 3"

definition ipv4Address :: byte where "ipv4Address = 1"
definition fqdnAddress :: byte where "fqdnAddress = 3"
definition ipv6Address :: byte where "ipv6Address = 4"

definition headVERLen :: nat where "headVERLen = 1"
definition headCMDLen :: nat where "headCMDLen = 1"
definition headRSVLen :: nat where "headRSVLen = 1"
definition headATYPLen :: nat where "headATYPLen = 1"
definition headPORTLen :: nat where "headPORTLen = 2"

text \<open>The two address widths of Go's package net.\<close>

definition IPv4len :: nat where "IPv4len = 4"
definition IPv6len :: nat where "IPv6len = 16"

lemmas const_defs =
  socks4Version_def socks5Version_def ConnectCommand_def BindCommand_def
  AssociateCommand_def ipv4Address_def fqdnAddress_def ipv6Address_def
  headVERLen_def headCMDLen_def headRSVLen_def headATYPLen_def headPORTLen_def
  IPv4len_def IPv6len_def

subsection \<open>Data\<close>

text \<open>
  A Go string is a sequence of bytes, and so is an Isabelle \<open>string\<close>: the conversions
  \<open>string(b)\<close> and \<open>[]byte(s)\<close> of Go copy the bytes one by one. A \<open>net.IP\<close> is a byte
  slice; the nil slice and the empty slice both have length 0 and are the empty list here.
  \<open>Port\<close> is a Go \<open>int\<close> (32 or 64 bits, signed). The code only shifts it right and
  truncates it to a byte, or builds it from two bytes, so no operation on it can overflow
  and it is an \<open>int\<close> here.
\<close>

definition string_of_bytes :: "byte list \<Rightarrow> string" where
  "string_of_bytes bs = map (\<lambda>b. char_of (unat b)) bs"

definition bytes_of_string :: "string \<Rightarrow> byte list" where
  "bytes_of_string s = map (\<lambda>c. of_nat (of_char c)) s"

record AddrSpec =
  FQDN :: string
  IP :: "byte list"
  Port :: int

record Header =
  Version :: byte
  Command :: byte
  Reserved :: byte
  Address :: AddrSpec
  addrType :: byte

text \<open>The zero value of a Go \<open>Header\<close>: what the named result \<open>hd\<close> of Parse starts as.\<close>

definition zero_AddrSpec :: AddrSpec where
  "zero_AddrSpec = \<lparr>FQDN = [], IP = [], Port = 0\<rparr>"

definition zero_Header :: Header where
  "zero_Header =
     \<lparr>Version = 0, Command = 0, Reserved = 0, Address = zero_AddrSpec, addrType = 0\<rparr>"

subsection \<open>Ports\<close>

text \<open>
  \<open>buildPort(hi, lo) = (int(hi) << 8) | int(lo)\<close> and
  \<open>breakPort(port) = byte(port >> 8), byte(port)\<close>. On a signed Go integer \<open>>>\<close> is the
  arithmetic shift, which is \<open>drop_bit\<close> on \<open>int\<close>; \<open>byte(_)\<close> keeps the low 8 bits,
  which is \<open>word_of_int\<close>.
\<close>

definition buildPort :: "byte \<Rightarrow> byte \<Rightarrow> int" where
  "buildPort hi lo = (push_bit 8 (uint hi)) OR (uint lo)"

definition breakPort :: "int \<Rightarrow> byte \<times> byte" where
  "breakPort port = (word_of_int (drop_bit 8 port), word_of_int port)"

subsection \<open>Text formatting of the Go library\<close>

text \<open>
  \<open>strconv.Itoa\<close> and the verb \<open>%d\<close> of package fmt write an integer in decimal, with a
  leading minus sign when it is negative. The digits are produced from the least
  significant one, each put in front of those already there. Only the bases 10 and 16 are
  used here; the test \<open>base < 2\<close> makes the recursion total.
\<close>

definition digit_char :: "nat \<Rightarrow> char" where
  "digit_char d = ''0123456789abcdef'' ! d"

fun formatBits :: "nat \<Rightarrow> nat \<Rightarrow> string \<Rightarrow> string" where
  "formatBits base n acc =
     (if base < 2 \<or> n < base then digit_char n # acc
      else formatBits base (n div base) (digit_char (n mod base) # acc))"

declare formatBits.simps [simp del]

definition Itoa :: "int \<Rightarrow> string" where
  "Itoa i = (if i < 0 then CHR ''-'' # formatBits 10 (nat (- i)) [] else formatBits 10 (nat i) [])"

subsection \<open>The input stream and io.ReadFull\<close>

text \<open>
  The \<open>io.Reader\<close> handed to Parse is the list of what its \<open>Read\<close> calls will deliver, in
  order: a byte, or a failure with the error the reader returns. After the last event the
  reader is at its end and returns \<open>io.EOF\<close>. A stream that simply ends is a list of
  \<open>Data\<close> events only. A failure event stays in the stream until a read runs into it, so
  an error that the reader returns together with the last bytes a read needs is met by
  the next read. A reader that blocks for ever is not modelled.

  \<open>io.ReadFull(r, buf)\<close> with a buffer of \<open>n\<close> bytes reads until it has \<open>n\<close> bytes and
  returns them. When the reader fails first, \<open>ReadFull\<close> returns the reader's error,
  except that \<open>io.EOF\<close> after at least one byte becomes \<open>io.ErrUnexpectedEOF\<close>. The second
  component is the stream after the call.
\<close>

datatype io_error = EOF | ErrUnexpectedEOF | ReaderError string

fun io_Error :: "io_error \<Rightarrow> string" where
  "io_Error EOF = ''EOF''"
| "io_Error ErrUnexpectedEOF = ''unexpected EOF''"
| "io_Error (ReaderError msg) = msg"

datatype event = Data byte | Fail io_error

type_synonym reader = "event list"

fun ReadAtLeast :: "reader \<Rightarrow> nat \<Rightarrow> byte list \<Rightarrow> (io_error + byte list) \<times> reader" where
  "ReadAtLeast r 0 buf = (Inr buf, r)"
| "ReadAtLeast [] (Suc k) buf = (Inl (if buf = [] then EOF else ErrUnexpectedEOF), [])"
| "ReadAtLeast (Data b # r) (Suc k) buf = ReadAtLeast r k (buf @ [b])"
| "ReadAtLeast (Fail err # r) (Suc k) buf =
     (Inl (if err = EOF \<and> buf \<noteq> [] then ErrUnexpectedEOF else err), r)"

definition ReadFull :: "reader \<Rightarrow> nat \<Rightarrow> (io_error + byte list) \<times> reader" where
  "ReadFull r n = ReadAtLeast r n []"

subsection \<open>Errors\<close>

text \<open>
  Modelled from the spec: \<open>unrecognizedAddrType\<close> is a package-level error variable that
  Parse returns for an address type it does not know; its declaration is in another file
  of the package. The spec calls this failure \<open>UnsupportedAddressType\<close>, a classification
  of its own, so it is a value of its own here, different from every \<open>Errorf msg\<close>.

  The other constructor is what the code builds itself: \<open>fmt.Errorf\<close> with the verbs \<open>%d\<close>
  and \<open>%v\<close> (never \<open>%w\<close>) makes a new error value that holds the formatted message and
  nothing else, \<open>Errorf msg\<close>.
\<close>

datatype error = Errorf string | unrecognizedAddrType


subsection \<open>Parse\<close>

text \<open>
  Parse returns its named results \<open>hd\<close> and \<open>err\<close> (\<open>None\<close> is the nil error), so a failed
  call still returns the header as far as it was filled in. The third component is the
  stream after the call. Every buffer is indexed only after \<open>ReadFull\<close> has filled it.
\<close>

definition Parse :: "reader \<Rightarrow> (Header \<times> error option) \<times> reader" where
  "Parse r =
    (let hd = zero_Header in
     case ReadFull r (headVERLen + headCMDLen) of
       (Inl err, r) \<Rightarrow>
         ((hd, Some (Errorf (''failed to get header version and command, '' @ io_Error err))), r)
     | (Inr tmp, r) \<Rightarrow>
        let hd = hd\<lparr>Version := tmp ! 0\<rparr>;
            hd = hd\<lparr>Command := tmp ! 1\<rparr>
        in
        if Version hd \<noteq> socks5Version \<and> Version hd \<noteq> socks4Version then
          ((hd, Some (Errorf (''unrecognized SOCKS version[''
                                @ Itoa (uint (Version hd)) @ '']''))), r)
        else if Command hd \<noteq> ConnectCommand \<and> Command hd \<noteq> BindCommand
                \<and> Command hd \<noteq> AssociateCommand then
          ((hd, Some (Errorf (''unrecognized command['' @ Itoa (uint (Command hd)) @ '']''))), r)
        else if Version hd = socks4Version \<and> Command hd = AssociateCommand then
          ((hd, Some (Errorf ''wrong version for command'')), r)
        else if Version hd = socks4Version then
          (case ReadFull r (headPORTLen + IPv4len) of
             (Inl err, r) \<Rightarrow>
               ((hd, Some (Errorf (''failed to get socks4 header port and ip, ''
                                     @ io_Error err))), r)
           | (Inr tmp, r) \<Rightarrow>
               let hd = hd\<lparr>Address := (Address hd)\<lparr>Port := buildPort (tmp ! 0) (tmp ! 1)\<rparr>\<rparr>;
                   hd = hd\<lparr>Address := (Address hd)\<lparr>IP := drop 2 tmp\<rparr>\<rparr>
               in ((hd, None), r))
        else if Version hd = socks5Version then
          (case ReadFull r (headRSVLen + headATYPLen) of
             (Inl err, r) \<Rightarrow>
               ((hd, Some (Errorf (''failed to get header RSV and address type, ''
                                     @ io_Error err))), r)
           | (Inr tmp, r) \<Rightarrow>
               let hd = hd\<lparr>Reserved := tmp ! 0\<rparr>;
                   hd = hd\<lparr>addrType := tmp ! 1\<rparr>
               in
               if addrType hd = fqdnAddress then
                 (case ReadFull r 1 of
                    (Inl err, r) \<Rightarrow>
                      ((hd, Some (Errorf (''failed to get header, '' @ io_Error err))), r)
                  | (Inr tmp, r) \<Rightarrow>
                      let addrLen = unat (tmp ! 0) in
                      (case ReadFull r (addrLen + 2) of
                         (Inl err, r) \<Rightarrow>
                           ((hd, Some (Errorf (''failed to get header, '' @ io_Error err))), r)
                       | (Inr addr, r) \<Rightarrow>
                           let hd = hd\<lparr>Address := (Address hd)
                                       \<lparr>FQDN := string_of_bytes (take addrLen addr)\<rparr>\<rparr>;
                               hd = hd\<lparr>Address := (Address hd)
                                       \<lparr>Port := buildPort (addr ! addrLen) (addr ! (addrLen + 1))\<rparr>\<rparr>
                           in ((hd, None), r)))
               else if addrType hd = ipv4Address then
                 (case ReadFull r (IPv4len + 2) of
                    (Inl err, r) \<Rightarrow>
                      ((hd, Some (Errorf (''failed to get header, '' @ io_Error err))), r)
                  | (Inr addr, r) \<Rightarrow>
                      let hd = hd\<lparr>Address := (Address hd)\<lparr>IP := take IPv4len addr\<rparr>\<rparr>;
                          hd = hd\<lparr>Address := (Address hd)
                                  \<lparr>Port := buildPort (addr ! IPv4len) (addr ! (IPv4len + 1))\<rparr>\<rparr>
                      in ((hd, None), r))
               else if addrType hd = ipv6Address then
                 (case ReadFull r (IPv6len + 2) of
                    (Inl err, r) \<Rightarrow>
                      ((hd, Some (Errorf (''failed to get header, '' @ io_Error err))), r)
                  | (Inr addr, r) \<Rightarrow>
                      let hd = hd\<lparr>Address := (Address hd)\<lparr>IP := take IPv6len addr\<rparr>\<rparr>;
                          hd = hd\<lparr>Address := (Address hd)
                                  \<lparr>Port := buildPort (addr ! IPv6len) (addr ! (IPv6len + 1))\<rparr>\<rparr>
                      in ((hd, None), r))
               else ((hd, Some unrecognizedAddrType), r))
        else ((hd, None), r))"

subsection \<open>Bytes\<close>

text \<open>
  \<open>To4\<close> and \<open>To16\<close> of Go's \<open>net.IP\<close>. \<open>To4\<close> returns a 4-byte address as it is and the
  last four bytes of a 16-byte address that starts with ten zero bytes and two bytes
  \<open>0xff\<close>; \<open>To16\<close> returns a 16-byte address as it is and puts those twelve bytes in front
  of a 4-byte one. For every other address both return nil.
\<close>

definition v4InV6Prefix :: "byte list" where
  "v4InV6Prefix = [0, 0, 0, 0, 0, 0, 0, 0, 0, 0, 0xff, 0xff]"

definition To4 :: "byte list \<Rightarrow> byte list" where
  "To4 ip =
     (if length ip = IPv4len then ip
      else if length ip = IPv6len \<and> take 12 ip = v4InV6Prefix then drop 12 ip
      else [])"

definition To16 :: "byte list \<Rightarrow> byte list" where
  "To16 ip =
     (if length ip = IPv4len then v4InV6Prefix @ ip
      else if length ip = IPv6len then ip
      else [])"

text \<open>\<open>byte(len(s))\<close> keeps the low 8 bits of the length: \<open>of_nat\<close> into a byte.\<close>

definition Bytes :: "Header \<Rightarrow> byte list" where
  "Bytes h =
    (let b = [];
         b = b @ [Version h];
         b = b @ [Command h];
         (hiPort, loPort) = breakPort (Port (Address h))
     in
     if Version h = socks4Version then
       (let b = b @ [hiPort, loPort];
            b = b @ IP (Address h)
        in b)
     else if Version h = socks5Version then
       (let b = b @ [Reserved h];
            b = b @ [addrType h];
            b = (if addrType h = fqdnAddress then
                   (let b = b @ [of_nat (length (FQDN (Address h)))];
                        b = b @ bytes_of_string (FQDN (Address h))
                    in b)
                 else if addrType h = ipv4Address then b @ To4 (IP (Address h))
                 else if addrType h = ipv6Address then b @ To16 (IP (Address h))
                 else b);
            b = b @ [hiPort, loPort]
        in b)
     else b)"

subsection \<open>Address\<close>

text \<open>
  \<open>net.JoinHostPort\<close> puts the host in square brackets when it contains a colon.
\<close>

definition JoinHostPort :: "string \<Rightarrow> string \<Rightarrow> string" where
  "JoinHostPort host port =
     (if CHR '':'' \<in> set host then ''['' @ host @ '']:'' @ port
      else host @ '':'' @ port)"

text \<open>
  The method \<open>String\<close> of \<open>net.IP\<close>: \<open><nil>\<close> for an address of length 0, a question mark
  and the bytes in hexadecimal for a length other than 4 and 16, the dotted decimal form
  when \<open>To4\<close> gives four bytes, and otherwise the eight 16-bit groups in hexadecimal
  separated by colons, where the first longest run of two or more zero groups is written
  as \<open>::\<close>.
\<close>

fun join :: "string \<Rightarrow> string list \<Rightarrow> string" where
  "join sep [] = []"
| "join sep [x] = x"
| "join sep (x # y # ys) = x @ sep @ join sep (y # ys)"

definition hexString :: "byte list \<Rightarrow> string" where
  "hexString b = concat (map (\<lambda>x. [digit_char (unat x div 16), digit_char (unat x mod 16)]) b)"

fun groups16 :: "byte list \<Rightarrow> nat list" where
  "groups16 (hi # lo # bs) = (256 * unat hi + unat lo) # groups16 bs"
| "groups16 bs = []"

definition zeroRun :: "nat list \<Rightarrow> nat \<Rightarrow> nat" where
  "zeroRun gs i = length (takeWhile (\<lambda>g. g = 0) (drop i gs))"

definition longestZeroRun :: "nat list \<Rightarrow> nat \<times> nat" where
  "longestZeroRun gs =
     fold (\<lambda>i (zeroStart, zeroEnd).
             let l = zeroRun gs i in
             if 2 \<le> l \<and> zeroEnd - zeroStart < l then (i, i + l) else (zeroStart, zeroEnd))
          [0..<8] (255, 255)"

definition string6 :: "nat list \<Rightarrow> string" where
  "string6 gs =
     (let (zeroStart, zeroEnd) = longestZeroRun gs;
          hex = (\<lambda>g. formatBits 16 g [])
      in if zeroStart = 255 then join '':'' (map hex gs)
         else join '':'' (map hex (take zeroStart gs)) @ ''::''
              @ join '':'' (map hex (drop zeroEnd gs)))"

definition IP_String :: "byte list \<Rightarrow> string" where
  "IP_String ip =
     (if length ip = 0 then ''<nil>''
      else if length ip \<noteq> IPv4len \<and> length ip \<noteq> IPv6len then ''?'' @ hexString ip
      else if length (To4 ip) = IPv4len then
        join ''.'' (map (\<lambda>x. formatBits 10 (unat x) []) (To4 ip))
      else string6 (groups16 ip))"

text \<open>
  The method \<open>Address\<close> of \<open>AddrSpec\<close> (the record already has a field \<open>Address\<close> in
  \<open>Header\<close>, so the method carries the name of its receiver type).
\<close>

definition AddrSpec_Address :: "AddrSpec \<Rightarrow> string" where
  "AddrSpec_Address a =
     (if 0 \<noteq> length (IP a) then JoinHostPort (IP_String (IP a)) (Itoa (Port a))
      else JoinHostPort (FQDN a) (Itoa (Port a)))"

section \<open>Properties\<close>

subsection \<open>Ports\<close>

lemma uint_byte_bounds: "0 \<le> uint (b::byte)" "uint (b::byte) < 256"
  using uint_bounded[of b] by simp_all

lemma buildPort_arith: "buildPort hi lo = 256 * uint hi + uint lo"
proof -
  have "push_bit 8 (uint hi) + uint lo = push_bit 8 (uint hi) OR uint lo"
  proof (rule disjunctive_add)
    fix n
    show "\<not> bit (push_bit 8 (uint hi)) n \<or> \<not> bit (uint lo) n"
      by (auto simp add: bit_push_bit_iff bit_uint_iff dest: bit_imp_le_length)
  qed
  then show ?thesis
    by (simp add: buildPort_def push_bit_eq_mult)
qed

lemma buildPort_range: "0 \<le> buildPort hi lo" "buildPort hi lo \<le> 65535"
  using uint_byte_bounds[of hi] uint_byte_bounds[of lo] by (simp_all add: buildPort_arith)

lemma breakPort_arith: "breakPort p = (word_of_int (p div 256), word_of_int (p mod 256))"
proof -
  have "(word_of_int (p mod 256) :: byte) = word_of_int p"
    by (simp add: word_of_int_eq_iff take_bit_eq_mod)
  then show ?thesis
    by (simp add: breakPort_def drop_bit_eq_div)
qed

lemma breakPort_buildPort: "breakPort (buildPort hi lo) = (hi, lo)"
proof -
  have d: "(256 * uint hi + uint lo) div 256 = uint hi"
    using uint_byte_bounds[of lo] by simp
  have m: "(256 * uint hi + uint lo) mod 256 = uint lo"
    using uint_byte_bounds[of lo] by simp
  have w: "(word_of_int (uint lo mod 256) :: byte) = lo"
    using uint_byte_bounds[of lo] by simp
  show ?thesis
    by (simp add: breakPort_arith buildPort_arith d m w)
qed

lemma and_255: "(p::int) AND 255 = p mod 256"
proof -
  have "p AND mask 8 = take_bit 8 p" by (simp only: take_bit_eq_mask)
  then show ?thesis by (simp add: take_bit_eq_mod mask_eq_exp_minus_1)
qed

text \<open>
  Claim C6. For every pair of bytes \<open>hi\<close>, \<open>lo\<close> the decoder builds the port
  \<open>(hi << 8) | lo\<close>, which is the unsigned big-endian number \<open>256 * hi + lo\<close> and lies in
  0 .. 65535: a byte with its top bit set adds its unsigned value, nothing is sign extended.
  The encoder emits the bytes of \<open>port >> 8\<close> and of \<open>port & 0xFF\<close>, and on a port built
  by the decoder these are \<open>hi\<close> and \<open>lo\<close> again. Port 0 goes with the bytes (0x00, 0x00)
  and port 65535 with (0xFF, 0xFF), in both directions.
\<close>

theorem port_big_endian:
  "buildPort hi lo = 256 * uint hi + uint lo
   \<and> 0 \<le> buildPort hi lo \<and> buildPort hi lo \<le> 65535
   \<and> fst (breakPort p) = word_of_int (drop_bit 8 p)
   \<and> snd (breakPort p) = word_of_int (p AND 0xFF)
   \<and> breakPort (buildPort hi lo) = (hi, lo)
   \<and> uint (fst (breakPort (buildPort hi lo))) = drop_bit 8 (buildPort hi lo)
   \<and> uint (snd (breakPort (buildPort hi lo))) = buildPort hi lo AND 0xFF
   \<and> buildPort 0 0 = 0 \<and> breakPort 0 = (0, 0)
   \<and> buildPort 0xFF 0xFF = 65535 \<and> breakPort 65535 = (0xFF, 0xFF)"
proof -
  have lo: "snd (breakPort p) = word_of_int (p AND 0xFF)"
    by (simp add: breakPort_arith and_255)
  have d: "drop_bit 8 (buildPort hi lo) = uint hi"
    using uint_byte_bounds[of lo] by (simp add: buildPort_arith drop_bit_eq_div)
  have m: "buildPort hi lo AND 0xFF = uint lo"
    using uint_byte_bounds[of lo] by (simp add: buildPort_arith and_255)
  have c: "buildPort 0 0 = 0" "breakPort 0 = (0, 0)"
    "buildPort 0xFF 0xFF = 65535" "breakPort 65535 = (0xFF, 0xFF)"
    by (simp_all add: buildPort_def breakPort_def)
  show ?thesis
    using buildPort_range[of hi lo] lo c
    by (simp add: buildPort_arith[symmetric] breakPort_buildPort d m) (simp add: breakPort_def)
qed

subsection \<open>Bytes\<close>

lemma bytes_of_string_of_bytes: "bytes_of_string (string_of_bytes bs) = bs"
proof -
  have "\<And>b::byte. (of_nat (of_char (char_of (unat b))) :: byte) = b"
  proof -
    fix b :: byte
    have "unat b < 256" using unsigned_less[of b, where 'a=nat] by simp
    then show "(of_nat (of_char (char_of (unat b))) :: byte) = b" by simp
  qed
  then show ?thesis
    by (simp add: bytes_of_string_def string_of_bytes_def comp_def)
qed

lemma string_of_bytes_of_string: "string_of_bytes (bytes_of_string s) = s"
proof -
  have "\<And>c. char_of (unat (of_nat (of_char c) :: byte)) = c"
    by (simp add: unat_of_nat)
  then show ?thesis
    by (simp add: bytes_of_string_def string_of_bytes_def comp_def)
qed

lemma length_string_of_bytes: "length (string_of_bytes bs) = length bs"
  by (simp add: string_of_bytes_def)

lemma length_bytes_of_string: "length (bytes_of_string s) = length s"
  by (simp add: bytes_of_string_def)

lemma Bytes_socks4:
  "Version h = 4 \<Longrightarrow>
   Bytes h = [4, Command h, fst (breakPort (Port (Address h))), snd (breakPort (Port (Address h)))]
             @ IP (Address h)"
  by (simp add: Bytes_def const_defs split: prod.split)

lemma Bytes_fqdn:
  "Version h = 5 \<Longrightarrow> addrType h = 3 \<Longrightarrow>
   Bytes h = [5, Command h, Reserved h, 3, of_nat (length (FQDN (Address h)))]
             @ bytes_of_string (FQDN (Address h))
             @ [fst (breakPort (Port (Address h))), snd (breakPort (Port (Address h)))]"
  by (simp add: Bytes_def const_defs split: prod.split)

lemma Bytes_ipv4:
  "Version h = 5 \<Longrightarrow> addrType h = 1 \<Longrightarrow>
   Bytes h = [5, Command h, Reserved h, 1] @ To4 (IP (Address h))
             @ [fst (breakPort (Port (Address h))), snd (breakPort (Port (Address h)))]"
  by (simp add: Bytes_def const_defs split: prod.split)

lemma Bytes_ipv6:
  "Version h = 5 \<Longrightarrow> addrType h = 4 \<Longrightarrow>
   Bytes h = [5, Command h, Reserved h, 4] @ To16 (IP (Address h))
             @ [fst (breakPort (Port (Address h))), snd (breakPort (Port (Address h)))]"
  by (simp add: Bytes_def const_defs split: prod.split)

lemma To4_width:
  "(if length ip = 4 \<or> (length ip = 16 \<and> take 12 ip = v4InV6Prefix)
    then length (To4 ip) = 4 else To4 ip = [])"
  by (simp add: To4_def const_defs)

lemma To16_width:
  "(if length ip = 4 \<or> length ip = 16 then length (To16 ip) = 16 else To16 ip = [])"
  by (simp add: To16_def const_defs v4InV6Prefix_def)

text \<open>
  Claim C10. For a version-5 header with the domain address type, Bytes emits one length
  byte, which is the length of the domain name modulo 256, and then every byte of the
  domain name. The length byte is the true length exactly when the name has at most 255
  bytes; a longer name wraps the length byte and is still emitted in full.
\<close>

theorem Bytes_fqdn_length_byte:
  assumes "Version h = socks5Version" and "addrType h = fqdnAddress"
  shows "Bytes h = [Version h, Command h, Reserved h, addrType h,
                    of_nat (length (FQDN (Address h)))]
                   @ bytes_of_string (FQDN (Address h))
                   @ [fst (breakPort (Port (Address h))), snd (breakPort (Port (Address h)))]
         \<and> length (bytes_of_string (FQDN (Address h))) = length (FQDN (Address h))
         \<and> string_of_bytes (bytes_of_string (FQDN (Address h))) = FQDN (Address h)
         \<and> unat (of_nat (length (FQDN (Address h))) :: byte) = length (FQDN (Address h)) mod 256
         \<and> (unat (of_nat (length (FQDN (Address h))) :: byte) = length (FQDN (Address h))
              \<longleftrightarrow> length (FQDN (Address h)) \<le> 255)"
proof -
  have v: "Version h = 5" "addrType h = 3"
    using assms by (simp_all add: const_defs)
  have m: "unat (of_nat (length (FQDN (Address h))) :: byte) = length (FQDN (Address h)) mod 256"
    by (simp add: unat_of_nat)
  have "(length (FQDN (Address h)) mod 256 = length (FQDN (Address h)))
          = (length (FQDN (Address h)) \<le> 255)"
    using mod_less_divisor[of 256 "length (FQDN (Address h))"] by auto
  with m show ?thesis
    using Bytes_fqdn[OF v] v
    by (simp add: length_bytes_of_string string_of_bytes_of_string)
qed

theorem Bytes_fqdn_length_byte_witness:
  "Version \<lparr>Version = 5, Command = 1, Reserved = 0,
            Address = \<lparr>FQDN = replicate 257 (CHR ''a''), IP = [], Port = 80\<rparr>,
            addrType = 3\<rparr> = socks5Version
   \<and> addrType \<lparr>Version = 5, Command = 1, Reserved = 0,
            Address = \<lparr>FQDN = replicate 257 (CHR ''a''), IP = [], Port = 80\<rparr>,
            addrType = 3\<rparr> = fqdnAddress
   \<and> Bytes \<lparr>Version = 5, Command = 1, Reserved = 0,
            Address = \<lparr>FQDN = replicate 257 (CHR ''a''), IP = [], Port = 80\<rparr>,
            addrType = 3\<rparr>
       = [5, 1, 0, 3, 1] @ replicate 257 0x61 @ [0, 80]"
  using Bytes_fqdn_length_byte[of "\<lparr>Version = 5, Command = 1, Reserved = 0,
          Address = \<lparr>FQDN = replicate 257 (CHR ''a''), IP = [], Port = 80\<rparr>, addrType = 3\<rparr>"]
  by (simp add: const_defs bytes_of_string_def breakPort_def)

text \<open>
  Claim C7 as stated, for every header, fails: a version-5 header with the IPv4 address
  type whose IP is the 16-byte address \<open>::1\<close> is emitted with no address byte at all,
  since \<open>To4\<close> returns nil for it.
\<close>

theorem Bytes_address_width_counterexample:
  "Bytes \<lparr>Version = 5, Command = 1, Reserved = 0,
          Address = \<lparr>FQDN = [], IP = [0, 0, 0, 0, 0, 0, 0, 0, 0, 0, 0, 0, 0, 0, 0, 1], Port = 80\<rparr>,
          addrType = 1\<rparr>
   = [5, 1, 0, 1, 0, 80]"
  by (simp add: Bytes_def const_defs To4_def v4InV6Prefix_def breakPort_def)

text \<open>
  Claim C7, as the code has it. A version-4 header whose IP has 4 bytes is emitted with
  exactly these 4 address bytes. A version-5 header with the IPv4 address type is emitted
  with \<open>To4\<close> of its IP: exactly 4 bytes when the IP has 4 bytes or is a 16-byte
  IPv4-mapped address, and no address byte otherwise. A version-5 header with the IPv6
  address type is emitted with \<open>To16\<close> of its IP: exactly 16 bytes when the IP has 4 or
  16 bytes, and no address byte otherwise.
\<close>

theorem Bytes_address_width:
  "(Version h = socks4Version \<and> length (IP (Address h)) = 4 \<longrightarrow>
      Bytes h = [Version h, Command h,
                 fst (breakPort (Port (Address h))), snd (breakPort (Port (Address h)))]
                @ IP (Address h))
   \<and> (Version h = socks5Version \<and> addrType h = ipv4Address \<longrightarrow>
      Bytes h = [Version h, Command h, Reserved h, addrType h] @ To4 (IP (Address h))
                @ [fst (breakPort (Port (Address h))), snd (breakPort (Port (Address h)))]
      \<and> (if length (IP (Address h)) = 4
             \<or> (length (IP (Address h)) = 16 \<and> take 12 (IP (Address h)) = v4InV6Prefix)
          then length (To4 (IP (Address h))) = 4 else To4 (IP (Address h)) = []))
   \<and> (Version h = socks5Version \<and> addrType h = ipv6Address \<longrightarrow>
      Bytes h = [Version h, Command h, Reserved h, addrType h] @ To16 (IP (Address h))
                @ [fst (breakPort (Port (Address h))), snd (breakPort (Port (Address h)))]
      \<and> (if length (IP (Address h)) = 4 \<or> length (IP (Address h)) = 16
          then length (To16 (IP (Address h))) = 16 else To16 (IP (Address h)) = []))"
  using Bytes_socks4[of h] Bytes_ipv4[of h] Bytes_ipv6[of h]
    To4_width[of "IP (Address h)"] To16_width[of "IP (Address h)"]
  by (simp add: const_defs)

theorem Bytes_address_width_witness:
  "Bytes \<lparr>Version = 4, Command = 1, Reserved = 0,
          Address = \<lparr>FQDN = [], IP = [10, 0, 0, 7], Port = 80\<rparr>, addrType = 0\<rparr>
     = [4, 1, 0, 80, 10, 0, 0, 7]
   \<and> Bytes \<lparr>Version = 5, Command = 1, Reserved = 0,
          Address = \<lparr>FQDN = [], IP = [0, 0, 0, 0, 0, 0, 0, 0, 0, 0, 0xff, 0xff, 10, 0, 0, 7],
                     Port = 80\<rparr>, addrType = 1\<rparr>
     = [5, 1, 0, 1, 10, 0, 0, 7, 0, 80]
   \<and> Bytes \<lparr>Version = 5, Command = 1, Reserved = 0,
          Address = \<lparr>FQDN = [], IP = [10, 0, 0, 7], Port = 80\<rparr>, addrType = 4\<rparr>
     = [5, 1, 0, 4, 0, 0, 0, 0, 0, 0, 0, 0, 0, 0, 0xff, 0xff, 10, 0, 0, 7, 0, 80]"
  using Bytes_address_width[of "\<lparr>Version = 4, Command = 1, Reserved = 0,
          Address = \<lparr>FQDN = [], IP = [10, 0, 0, 7], Port = 80\<rparr>, addrType = 0\<rparr>"]
    Bytes_address_width[of "\<lparr>Version = 5, Command = 1, Reserved = 0,
          Address = \<lparr>FQDN = [], IP = [0, 0, 0, 0, 0, 0, 0, 0, 0, 0, 0xff, 0xff, 10, 0, 0, 7],
                     Port = 80\<rparr>, addrType = 1\<rparr>"]
    Bytes_address_width[of "\<lparr>Version = 5, Command = 1, Reserved = 0,
          Address = \<lparr>FQDN = [], IP = [10, 0, 0, 7], Port = 80\<rparr>, addrType = 4\<rparr>"]
  by (simp add: const_defs To4_def To16_def v4InV6Prefix_def breakPort_def)

subsection \<open>Address\<close>

lemma digit_char_values:
  "digit_char 0 = CHR ''0''" "digit_char 1 = CHR ''1''" "digit_char 2 = CHR ''2''"
  "digit_char 3 = CHR ''3''" "digit_char 4 = CHR ''4''" "digit_char 5 = CHR ''5''"
  "digit_char 6 = CHR ''6''" "digit_char 7 = CHR ''7''" "digit_char 8 = CHR ''8''"
  "digit_char 9 = CHR ''9''"
  by (simp_all add: digit_char_def)

lemma digit_char_no_colon:
  assumes "d < 10"
  shows "digit_char d \<noteq> CHR '':''"
proof -
  from assms have "d = 0 \<or> d = 1 \<or> d = 2 \<or> d = 3 \<or> d = 4 \<or> d = 5 \<or> d = 6
    \<or> d = 7 \<or> d = 8 \<or> d = 9"
    by presburger
  then show ?thesis
    using digit_char_values by (elim disjE) (simp_all del: One_nat_def)
qed

lemma formatBits_no_colon:
  "CHR '':'' \<notin> set acc \<Longrightarrow> CHR '':'' \<notin> set (formatBits 10 n acc)"
proof (induction "10 :: nat" n acc rule: formatBits.induct)
  case (1 n acc)
  show ?case
  proof (cases "n < 10")
    case True
    then have "formatBits 10 n acc = digit_char n # acc"
      by (simp add: formatBits.simps)
    then show ?thesis
      using digit_char_no_colon[OF True] "1.prems" by simp
  next
    case False
    then have eq: "formatBits 10 n acc = formatBits 10 (n div 10) (digit_char (n mod 10) # acc)"
      by (simp add: formatBits.simps)
    have "digit_char (n mod 10) \<noteq> CHR '':''"
      by (rule digit_char_no_colon) simp
    then have "CHR '':'' \<notin> set (digit_char (n mod 10) # acc)"
      using "1.prems" by auto
    with "1.hyps" False show ?thesis
      unfolding eq by simp
  qed
qed

lemma Itoa_byte: "Itoa (uint (b::byte)) = formatBits 10 (unat b) []"
  by (simp add: Itoa_def)

lemma IP_String_ipv4:
  "IP_String [b0, b1, b2, b3]
     = Itoa (uint b0) @ ''.'' @ Itoa (uint b1) @ ''.'' @ Itoa (uint b2) @ ''.'' @ Itoa (uint b3)"
  by (simp add: IP_String_def To4_def const_defs Itoa_byte)

lemma no_colon_ipv4: "CHR '':'' \<notin> set (IP_String [b0, b1, b2, b3])"
  using formatBits_no_colon[of "[]"] by (simp add: IP_String_ipv4 Itoa_byte)

lemma join_has_sep:
  assumes "2 \<le> length xs"
  shows "set sep \<subseteq> set (join sep xs)"
proof -
  from assms obtain x y ys where "xs = x # y # ys"
    by (cases xs; cases "tl xs") auto
  then show ?thesis by auto
qed

lemma length_groups16: "length (groups16 ip) = length ip div 2"
  by (induction ip rule: groups16.induct) simp_all

lemma string6_has_colon:
  assumes "2 \<le> length gs"
  shows "CHR '':'' \<in> set (string6 gs)"
proof -
  obtain zs ze where lz: "longestZeroRun gs = (zs, ze)"
    by (cases "longestZeroRun gs")
  have "set '':'' \<subseteq> set (join '':'' (map (\<lambda>g. formatBits 16 g []) gs))"
    by (rule join_has_sep) (simp add: assms)
  then show ?thesis
    by (simp add: string6_def lz Let_def)
qed

lemma IP_String_ipv6:
  assumes "length ip = 16" and "take 12 ip \<noteq> v4InV6Prefix"
  shows "IP_String ip = string6 (groups16 ip)"
  using assms by (simp add: IP_String_def To4_def const_defs)

lemma IP_String_mapped:
  "IP_String (v4InV6Prefix @ [b0, b1, b2, b3])
     = Itoa (uint b0) @ ''.'' @ Itoa (uint b1) @ ''.'' @ Itoa (uint b2) @ ''.'' @ Itoa (uint b3)"
  by (simp add: IP_String_def To4_def const_defs v4InV6Prefix_def Itoa_byte)

lemma JoinHostPort_plain:
  "CHR '':'' \<notin> set host \<Longrightarrow> JoinHostPort host port = host @ '':'' @ port"
  by (simp only: JoinHostPort_def if_False)

lemma JoinHostPort_brackets:
  "CHR '':'' \<in> set host \<Longrightarrow> JoinHostPort host port = ''['' @ host @ '']:'' @ port"
  by (simp only: JoinHostPort_def if_True)

lemma upt8: "[0..<8] = [0, 1, 2, 3, 4, 5, 6, 7]"
  by (simp add: upt_rec)

lemma take_drop_one: "take 1 (x # xs) = [x]" "drop 1 (x # xs) = xs"
  by simp_all

lemma hex_values:
  "formatBits 16 0 [] = ''0''" "formatBits 16 1 [] = ''1''" "formatBits 16 2 [] = ''2''"
  "formatBits 16 15 [] = ''f''" "formatBits 16 8193 [] = ''2001''"
  "formatBits 16 3512 [] = ''db8''" "formatBits 16 65152 [] = ''fe80''"
  "formatBits 16 2748 [] = ''abc''"
  by (simp_all add: formatBits.simps digit_char_def)

lemma IP_String_ex1:
  "IP_String [0, 0, 0, 0, 0, 0, 0, 0, 0, 0, 0, 0, 0, 0, 0, 1] = ''::1''"
proof -
  have g: "groups16 ([0, 0, 0, 0, 0, 0, 0, 0, 0, 0, 0, 0, 0, 0, 0, 1] :: byte list)
             = [0, 0, 0, 0, 0, 0, 0, 1]"
    by simp
  have z: "longestZeroRun [0, 0, 0, 0, 0, 0, 0, 1] = (0, 7)"
    by (simp add: longestZeroRun_def zeroRun_def upt8)
  have s: "string6 [0, 0, 0, 0, 0, 0, 0, 1] = ''::1''"
    by (simp add: string6_def z hex_values take_drop_one del: One_nat_def)
  show ?thesis
    by (simp add: IP_String_def To4_def const_defs v4InV6Prefix_def g s
          del: groups16.simps One_nat_def)
qed

lemma IP_String_ex2:
  "IP_String [0x20, 1, 0x0d, 0xb8, 0, 0, 0, 0, 0, 1, 0, 0, 0, 0, 0, 1] = ''2001:db8::1:0:0:1''"
proof -
  have g: "groups16 ([0x20, 1, 0x0d, 0xb8, 0, 0, 0, 0, 0, 1, 0, 0, 0, 0, 0, 1] :: byte list)
             = [8193, 3512, 0, 0, 1, 0, 0, 1]"
    by simp
  have z: "longestZeroRun [8193, 3512, 0, 0, 1, 0, 0, 1] = (2, 4)"
    by (simp add: longestZeroRun_def zeroRun_def upt8)
  have s: "string6 [8193, 3512, 0, 0, 1, 0, 0, 1] = ''2001:db8::1:0:0:1''"
    by (simp add: string6_def z hex_values take_drop_one del: One_nat_def)
  show ?thesis
    by (simp add: IP_String_def To4_def const_defs v4InV6Prefix_def g s
          del: groups16.simps One_nat_def)
qed

lemma IP_String_ex3:
  "IP_String [0x20, 1, 0x0d, 0xb8, 0, 0, 0, 1, 0, 1, 0, 0, 0, 2, 0, 0] = ''2001:db8:0:1:1:0:2:0''"
proof -
  have g: "groups16 ([0x20, 1, 0x0d, 0xb8, 0, 0, 0, 1, 0, 1, 0, 0, 0, 2, 0, 0] :: byte list)
             = [8193, 3512, 0, 1, 1, 0, 2, 0]"
    by simp
  have z: "longestZeroRun [8193, 3512, 0, 1, 1, 0, 2, 0] = (255, 255)"
    by (simp add: longestZeroRun_def zeroRun_def upt8)
  have s: "string6 [8193, 3512, 0, 1, 1, 0, 2, 0] = ''2001:db8:0:1:1:0:2:0''"
    by (simp add: string6_def z hex_values take_drop_one del: One_nat_def)
  show ?thesis
    by (simp add: IP_String_def To4_def const_defs v4InV6Prefix_def g s
          del: groups16.simps One_nat_def)
qed

lemma IP_String_ex4:
  "IP_String [0xfe, 0x80, 0, 0, 0, 0, 0, 0, 0x0a, 0xbc, 0, 0, 0, 0, 0, 0x0f] = ''fe80::abc:0:0:f''"
proof -
  have g: "groups16 ([0xfe, 0x80, 0, 0, 0, 0, 0, 0, 0x0a, 0xbc, 0, 0, 0, 0, 0, 0x0f] :: byte list)
             = [65152, 0, 0, 0, 2748, 0, 0, 15]"
    by simp
  have z: "longestZeroRun [65152, 0, 0, 0, 2748, 0, 0, 15] = (1, 4)"
    by (simp add: longestZeroRun_def zeroRun_def upt8)
  have s: "string6 [65152, 0, 0, 0, 2748, 0, 0, 15] = ''fe80::abc:0:0:f''"
    by (simp add: string6_def z hex_values take_drop_one del: One_nat_def)
  show ?thesis
    by (simp add: IP_String_def To4_def const_defs v4InV6Prefix_def g s
          del: groups16.simps One_nat_def)
qed

lemmas IP_String_examples = IP_String_ex1 IP_String_ex2 IP_String_ex3 IP_String_ex4

text \<open>
  Claim C9. When the IP is present (its length is not 0), Address is the text form of the
  IP joined with the port, and the domain name plays no part in it. For an IP of 4 bytes,
  and for an IP of 16 bytes that is an IPv4-mapped address, the result is the dotted
  decimal address, a colon and the port in decimal. For any other IP of 16 bytes it is the
  IPv6 text in square brackets, a colon and the port: the eight groups in hexadecimal
  without leading zeros, the longest run of two or more zero groups written \<open>::\<close>, as in
  \<open>[::1]:80\<close>, \<open>[2001:db8::1:0:0:1]:443\<close> and \<open>[fe80::abc:0:0:f]:80\<close>, and no \<open>::\<close> when
  no two neighbouring groups are zero, as in \<open>[2001:db8:0:1:1:0:2:0]:80\<close>. When no IP is
  present, Address is the domain name joined with the port: the name, a colon and the
  port, the name in square brackets when it contains a colon.
\<close>

theorem Address_prefers_IP:
  "(IP a \<noteq> [] \<longrightarrow> AddrSpec_Address a = JoinHostPort (IP_String (IP a)) (Itoa (Port a)))
   \<and> (IP a \<noteq> [] \<longrightarrow> AddrSpec_Address (a\<lparr>FQDN := d\<rparr>) = AddrSpec_Address a)
   \<and> (IP a = [b0, b1, b2, b3] \<longrightarrow>
      AddrSpec_Address a = Itoa (uint b0) @ ''.'' @ Itoa (uint b1) @ ''.'' @ Itoa (uint b2)
                           @ ''.'' @ Itoa (uint b3) @ '':'' @ Itoa (Port a))
   \<and> (IP a = [] \<longrightarrow> AddrSpec_Address a = JoinHostPort (FQDN a) (Itoa (Port a)))
   \<and> (IP a = [] \<and> CHR '':'' \<notin> set (FQDN a) \<longrightarrow>
      AddrSpec_Address a = FQDN a @ '':'' @ Itoa (Port a))
   \<and> (IP a = [] \<and> CHR '':'' \<in> set (FQDN a) \<longrightarrow>
      AddrSpec_Address a = ''['' @ FQDN a @ '']:'' @ Itoa (Port a))
   \<and> (IP a = v4InV6Prefix @ [b0, b1, b2, b3] \<longrightarrow>
      AddrSpec_Address a = Itoa (uint b0) @ ''.'' @ Itoa (uint b1) @ ''.'' @ Itoa (uint b2)
                           @ ''.'' @ Itoa (uint b3) @ '':'' @ Itoa (Port a))
   \<and> (length (IP a) = IPv6len \<and> take 12 (IP a) \<noteq> v4InV6Prefix \<longrightarrow>
      AddrSpec_Address a = ''['' @ string6 (groups16 (IP a)) @ '']:'' @ Itoa (Port a))
   \<and> (IP a = [0, 0, 0, 0, 0, 0, 0, 0, 0, 0, 0, 0, 0, 0, 0, 1] \<longrightarrow>
      AddrSpec_Address a = ''[::1]:'' @ Itoa (Port a))
   \<and> (IP a = [0x20, 0x01, 0x0d, 0xb8, 0, 0, 0, 0, 0, 1, 0, 0, 0, 0, 0, 1] \<longrightarrow>
      AddrSpec_Address a = ''[2001:db8::1:0:0:1]:'' @ Itoa (Port a))
   \<and> (IP a = [0x20, 0x01, 0x0d, 0xb8, 0, 0, 0, 1, 0, 1, 0, 0, 0, 2, 0, 0] \<longrightarrow>
      AddrSpec_Address a = ''[2001:db8:0:1:1:0:2:0]:'' @ Itoa (Port a))
   \<and> (IP a = [0xfe, 0x80, 0, 0, 0, 0, 0, 0, 0x0a, 0xbc, 0, 0, 0, 0, 0, 0x0f] \<longrightarrow>
      AddrSpec_Address a = ''[fe80::abc:0:0:f]:'' @ Itoa (Port a))"
proof (intro conjI impI)
  assume ip: "IP a = [b0, b1, b2, b3]"
  have "JoinHostPort (IP_String [b0, b1, b2, b3]) (Itoa (Port a))
          = IP_String [b0, b1, b2, b3] @ '':'' @ Itoa (Port a)"
    using no_colon_ipv4[of b0 b1 b2 b3] by (rule JoinHostPort_plain)
  then show "AddrSpec_Address a = Itoa (uint b0) @ ''.'' @ Itoa (uint b1) @ ''.''
                @ Itoa (uint b2) @ ''.'' @ Itoa (uint b3) @ '':'' @ Itoa (Port a)"
    by (simp add: AddrSpec_Address_def ip IP_String_ipv4)
next
  assume ip: "IP a = v4InV6Prefix @ [b0, b1, b2, b3]"
  have "CHR '':'' \<notin> set (IP_String (v4InV6Prefix @ [b0, b1, b2, b3]))"
    using formatBits_no_colon[of "[]"] by (simp add: IP_String_mapped Itoa_byte)
  then have "JoinHostPort (IP_String (v4InV6Prefix @ [b0, b1, b2, b3])) (Itoa (Port a))
          = IP_String (v4InV6Prefix @ [b0, b1, b2, b3]) @ '':'' @ Itoa (Port a)"
    by (rule JoinHostPort_plain)
  then show "AddrSpec_Address a = Itoa (uint b0) @ ''.'' @ Itoa (uint b1) @ ''.''
                @ Itoa (uint b2) @ ''.'' @ Itoa (uint b3) @ '':'' @ Itoa (Port a)"
    by (simp add: AddrSpec_Address_def ip IP_String_mapped)
next
  assume "length (IP a) = IPv6len \<and> take 12 (IP a) \<noteq> v4InV6Prefix"
  then have len: "length (IP a) = 16" and nm: "take 12 (IP a) \<noteq> v4InV6Prefix"
    by (simp_all add: const_defs)
  have s: "IP_String (IP a) = string6 (groups16 (IP a))"
    by (rule IP_String_ipv6[OF len nm])
  have "CHR '':'' \<in> set (string6 (groups16 (IP a)))"
    by (rule string6_has_colon) (simp add: length_groups16 len)
  then have "JoinHostPort (string6 (groups16 (IP a))) (Itoa (Port a))
          = ''['' @ string6 (groups16 (IP a)) @ '']:'' @ Itoa (Port a)"
    by (rule JoinHostPort_brackets)
  moreover have "IP a \<noteq> []" using len by auto
  ultimately show "AddrSpec_Address a
      = ''['' @ string6 (groups16 (IP a)) @ '']:'' @ Itoa (Port a)"
    by (simp add: AddrSpec_Address_def s)
next
  assume ip: "IP a = [0, 0, 0, 0, 0, 0, 0, 0, 0, 0, 0, 0, 0, 0, 0, 1]"
  show "AddrSpec_Address a = ''[::1]:'' @ Itoa (Port a)"
    by (simp add: AddrSpec_Address_def ip IP_String_examples JoinHostPort_def)
next
  assume ip: "IP a = [0x20, 0x01, 0x0d, 0xb8, 0, 0, 0, 0, 0, 1, 0, 0, 0, 0, 0, 1]"
  show "AddrSpec_Address a = ''[2001:db8::1:0:0:1]:'' @ Itoa (Port a)"
    by (simp add: AddrSpec_Address_def ip IP_String_examples JoinHostPort_def)
next
  assume ip: "IP a = [0x20, 0x01, 0x0d, 0xb8, 0, 0, 0, 1, 0, 1, 0, 0, 0, 2, 0, 0]"
  show "AddrSpec_Address a = ''[2001:db8:0:1:1:0:2:0]:'' @ Itoa (Port a)"
    by (simp add: AddrSpec_Address_def ip IP_String_examples JoinHostPort_def)
next
  assume ip: "IP a = [0xfe, 0x80, 0, 0, 0, 0, 0, 0, 0x0a, 0xbc, 0, 0, 0, 0, 0, 0x0f]"
  show "AddrSpec_Address a = ''[fe80::abc:0:0:f]:'' @ Itoa (Port a)"
    by (simp add: AddrSpec_Address_def ip IP_String_examples JoinHostPort_def)
qed (simp_all add: AddrSpec_Address_def JoinHostPort_def)

theorem Address_prefers_IP_witness:
  "AddrSpec_Address \<lparr>FQDN = ''example.com'', IP = [127, 0, 0, 1], Port = 8080\<rparr> = ''127.0.0.1:8080''
   \<and> AddrSpec_Address \<lparr>FQDN = ''example.com'', IP = [], Port = 80\<rparr> = ''example.com:80''
   \<and> AddrSpec_Address \<lparr>FQDN = ''example.com'',
         IP = [0, 0, 0, 0, 0, 0, 0, 0, 0, 0, 0, 0, 0, 0, 0, 1], Port = 80\<rparr> = ''[::1]:80''
   \<and> AddrSpec_Address \<lparr>FQDN = [],
         IP = [0x20, 0x01, 0x0d, 0xb8, 0, 0, 0, 0, 0, 1, 0, 0, 0, 0, 0, 1], Port = 443\<rparr>
       = ''[2001:db8::1:0:0:1]:443''
   \<and> AddrSpec_Address \<lparr>FQDN = [],
         IP = [0, 0, 0, 0, 0, 0, 0, 0, 0, 0, 0xff, 0xff, 10, 0, 0, 1], Port = 80\<rparr>
       = ''10.0.0.1:80''"
proof -
  have p: "Itoa 8080 = ''8080''" "Itoa 80 = ''80''" "Itoa 127 = ''127''"
    "Itoa 0 = ''0''" "Itoa 1 = ''1''" "Itoa 443 = ''443''" "Itoa 10 = ''10''"
    by (simp_all add: Itoa_def formatBits.simps digit_char_def)
  have "AddrSpec_Address \<lparr>FQDN = ''example.com'', IP = [127, 0, 0, 1], Port = 8080\<rparr>
          = Itoa 127 @ ''.'' @ Itoa 0 @ ''.'' @ Itoa 0 @ ''.'' @ Itoa 1 @ '':'' @ Itoa 8080"
    using Address_prefers_IP[of "\<lparr>FQDN = ''example.com'', IP = [127, 0, 0, 1], Port = 8080\<rparr>"
            "''example.com''" 127 0 0 1, THEN conjunct2, THEN conjunct2, THEN conjunct1]
    by simp
  moreover
  have "AddrSpec_Address \<lparr>FQDN = ''example.com'', IP = [], Port = 80\<rparr>
          = ''example.com'' @ '':'' @ Itoa 80"
    using Address_prefers_IP[of "\<lparr>FQDN = ''example.com'', IP = [], Port = 80\<rparr>",
            THEN conjunct2, THEN conjunct2, THEN conjunct2, THEN conjunct2, THEN conjunct1]
    by simp
  moreover
  have "AddrSpec_Address \<lparr>FQDN = ''example.com'',
            IP = [0, 0, 0, 0, 0, 0, 0, 0, 0, 0, 0, 0, 0, 0, 0, 1], Port = 80\<rparr>
          = ''[::1]:'' @ Itoa 80"
    using Address_prefers_IP[of "\<lparr>FQDN = ''example.com'',
            IP = [0, 0, 0, 0, 0, 0, 0, 0, 0, 0, 0, 0, 0, 0, 0, 1], Port = 80\<rparr>",
            THEN conjunct2, THEN conjunct2, THEN conjunct2, THEN conjunct2, THEN conjunct2,
            THEN conjunct2, THEN conjunct2, THEN conjunct2, THEN conjunct1]
    by simp
  moreover
  have "AddrSpec_Address \<lparr>FQDN = [],
            IP = [0x20, 0x01, 0x0d, 0xb8, 0, 0, 0, 0, 0, 1, 0, 0, 0, 0, 0, 1], Port = 443\<rparr>
          = ''[2001:db8::1:0:0:1]:'' @ Itoa 443"
    using Address_prefers_IP[of "\<lparr>FQDN = [],
            IP = [0x20, 0x01, 0x0d, 0xb8, 0, 0, 0, 0, 0, 1, 0, 0, 0, 0, 0, 1], Port = 443\<rparr>",
            THEN conjunct2, THEN conjunct2, THEN conjunct2, THEN conjunct2, THEN conjunct2,
            THEN conjunct2, THEN conjunct2, THEN conjunct2, THEN conjunct2, THEN conjunct1]
    by simp
  moreover
  have "AddrSpec_Address \<lparr>FQDN = [],
            IP = [0, 0, 0, 0, 0, 0, 0, 0, 0, 0, 0xff, 0xff, 10, 0, 0, 1], Port = 80\<rparr>
          = Itoa 10 @ ''.'' @ Itoa 0 @ ''.'' @ Itoa 0 @ ''.'' @ Itoa 1 @ '':'' @ Itoa 80"
    using Address_prefers_IP[of "\<lparr>FQDN = [],
            IP = [0, 0, 0, 0, 0, 0, 0, 0, 0, 0, 0xff, 0xff, 10, 0, 0, 1], Port = 80\<rparr>"
            "[]" 10 0 0 1,
            THEN conjunct2, THEN conjunct2, THEN conjunct2, THEN conjunct2, THEN conjunct2,
            THEN conjunct2, THEN conjunct1]
    by (simp add: v4InV6Prefix_def)
  ultimately show ?thesis
    by (simp add: p)
qed

subsection \<open>io.ReadFull on a stream\<close>

text \<open>
  A call of \<open>ReadFull\<close> for \<open>n\<close> bytes meets one of three streams: \<open>n\<close> bytes of data,
  fewer than \<open>n\<close> bytes and the end, or fewer than \<open>n\<close> bytes and a failure of the reader.
\<close>

lemma ReadAtLeast_data:
  "n \<le> length bs \<Longrightarrow>
   ReadAtLeast (map Data bs @ r) n buf = (Inr (buf @ take n bs), map Data (drop n bs) @ r)"
proof (induction bs arbitrary: n buf)
  case Nil
  then show ?case by simp
next
  case (Cons b bs)
  show ?case
  proof (cases n)
    case 0
    then show ?thesis by simp
  next
    case (Suc k)
    then show ?thesis using Cons by simp
  qed
qed

lemma ReadAtLeast_end:
  "length bs < n \<Longrightarrow>
   ReadAtLeast (map Data bs) n buf = (Inl (if buf @ bs = [] then EOF else ErrUnexpectedEOF), [])"
proof (induction bs arbitrary: n buf)
  case Nil
  then show ?case by (cases n) simp_all
next
  case (Cons b bs)
  then show ?case by (cases n) simp_all
qed

lemma ReadAtLeast_fail:
  "length bs < n \<Longrightarrow>
   ReadAtLeast (map Data bs @ Fail e # r) n buf
     = (Inl (if e = EOF \<and> buf @ bs \<noteq> [] then ErrUnexpectedEOF else e), r)"
proof (induction bs arbitrary: n buf)
  case Nil
  then show ?case by (cases n) simp_all
next
  case (Cons b bs)
  then show ?case by (cases n) simp_all
qed

lemma ReadFull_data:
  "n \<le> length bs \<Longrightarrow>
   ReadFull (map Data bs @ r) n = (Inr (take n bs), map Data (drop n bs) @ r)"
  by (simp add: ReadFull_def ReadAtLeast_data)

lemma ReadFull_end:
  "length bs < n \<Longrightarrow>
   ReadFull (map Data bs) n = (Inl (if bs = [] then EOF else ErrUnexpectedEOF), [])"
  by (simp add: ReadFull_def ReadAtLeast_end)

lemma ReadFull_fail:
  "length bs < n \<Longrightarrow>
   ReadFull (map Data bs @ Fail e # r) n
     = (Inl (if e = EOF \<and> bs \<noteq> [] then ErrUnexpectedEOF else e), r)"
  by (simp add: ReadFull_def ReadAtLeast_fail)

lemma shape_dataI:
  "r = map Data bs @ r' \<Longrightarrow> length bs = n \<Longrightarrow>
   (\<exists>bs r'. r = map Data bs @ r' \<and> length bs = n)
   \<or> (\<exists>bs. r = map Data bs \<and> length bs < n)
   \<or> (\<exists>bs e r'. r = map Data bs @ Fail e # r' \<and> length bs < n)"
  by (rule disjI1, rule exI[of _ bs], rule exI[of _ r'], rule conjI)

lemma shape_endsI:
  "r = map Data bs \<Longrightarrow> length bs < n \<Longrightarrow>
   (\<exists>bs r'. r = map Data bs @ r' \<and> length bs = n)
   \<or> (\<exists>bs. r = map Data bs \<and> length bs < n)
   \<or> (\<exists>bs e r'. r = map Data bs @ Fail e # r' \<and> length bs < n)"
  by (rule disjI2, rule disjI1, rule exI[of _ bs], rule conjI)

lemma shape_failsI:
  "r = map Data bs @ Fail e # r' \<Longrightarrow> length bs < n \<Longrightarrow>
   (\<exists>bs r'. r = map Data bs @ r' \<and> length bs = n)
   \<or> (\<exists>bs. r = map Data bs \<and> length bs < n)
   \<or> (\<exists>bs e r'. r = map Data bs @ Fail e # r' \<and> length bs < n)"
  by (rule disjI2, rule disjI2, rule exI[of _ bs], rule exI[of _ e], rule exI[of _ r'], rule conjI)

lemma reader_shape_disj:
  "(\<exists>bs r'. r = map Data bs @ r' \<and> length bs = n)
   \<or> (\<exists>bs. r = map Data bs \<and> length bs < n)
   \<or> (\<exists>bs e r'. r = map Data bs @ Fail e # r' \<and> length bs < n)"
proof (induction r arbitrary: n)
  case Nil
  show ?case
  proof (cases n)
    case 0
    show ?thesis by (rule shape_dataI[of _ "[]" "[]"]) (simp_all add: 0)
  next
    case (Suc k)
    show ?thesis by (rule shape_endsI[of _ "[]"]) (simp_all add: Suc)
  qed
next
  case (Cons ev r)
  show ?case
  proof (cases n)
    case 0
    show ?thesis by (rule shape_dataI[of _ "[]" "ev # r"]) (simp_all add: 0)
  next
    case (Suc k)
    show ?thesis
    proof (cases ev)
      case (Fail e)
      show ?thesis by (rule shape_failsI[of _ "[]" e r]) (simp_all add: Fail Suc)
    next
      case (Data b)
      from Cons.IH[of k] show ?thesis
      proof (elim disjE exE conjE)
        fix bs r' assume "r = map Data bs @ r'" "length bs = k"
        then show ?thesis
          by (intro shape_dataI[of _ "b # bs" r']) (simp_all add: Data Suc)
      next
        fix bs assume "r = map Data bs" "length bs < k"
        then show ?thesis
          by (intro shape_endsI[of _ "b # bs"]) (simp_all add: Data Suc)
      next
        fix bs e r' assume "r = map Data bs @ Fail e # r'" "length bs < k"
        then show ?thesis
          by (intro shape_failsI[of _ "b # bs" e r']) (simp_all add: Data Suc)
      qed
    qed
  qed
qed

lemma reader_shape:
  obtains (data) bs r' where "r = map Data bs @ r'" "length bs = n"
  | (ends) bs where "r = map Data bs" "length bs < n"
  | (fails) bs e r' where "r = map Data bs @ Fail e # r'" "length bs < n"
  using reader_shape_disj[of r n] by (elim disjE exE conjE)

lemma ReadFull_Inr:
  assumes "ReadFull r n = (Inr tmp, r')"
  shows "r = map Data tmp @ r'" and "length tmp = n"
proof -
  have "r = map Data tmp @ r' \<and> length tmp = n"
  proof (cases r n rule: reader_shape)
    case (data bs r1)
    then show ?thesis using assms ReadFull_data[of n bs r1] by simp
  next
    case (ends bs)
    then show ?thesis using assms by (simp add: ReadFull_end)
  next
    case (fails bs e r1)
    then show ?thesis using assms by (simp add: ReadFull_fail)
  qed
  then show "r = map Data tmp @ r'" and "length tmp = n" by simp_all
qed


lemma ReadFull_two: "ReadFull (Data a # Data b # r) 2 = (Inr [a, b], r)"
  using ReadFull_data[of 2 "[a, b]" r] by simp

lemma ReadFull_one: "ReadFull (Data a # r) 1 = (Inr [a], r)"
  using ReadFull_data[of 1 "[a]" r] by simp


subsection \<open>Parse, case by case\<close>

text \<open>
  What Parse returns, by the outcome of each read. Each equation gives the header, the
  error and the stream that is left.
\<close>

lemma read_sizes:
  "headVERLen + headCMDLen = 2" "headPORTLen + IPv4len = 6" "headRSVLen + headATYPLen = 2"
  "IPv4len + 2 = 6" "IPv6len + 2 = 18"
  by (simp_all add: const_defs)

lemma ReadFull_one_Suc: "ReadFull (Data a # r) (Suc 0) = (Inr [a], r)"
  using ReadFull_one[of a r] by simp

lemma Parse_head_fail:
  "ReadFull r 2 = (Inl x, r') \<Longrightarrow> Parse r =
     ((zero_Header, Some (Errorf (''failed to get header version and command, ''
        @ io_Error x))), r')"
  unfolding Parse_def read_sizes
  by simp

lemma Parse_bad_version:
  "v \<noteq> 4 \<Longrightarrow> v \<noteq> 5 \<Longrightarrow> Parse (Data v # Data c # r) =
     ((zero_Header\<lparr>Version := v, Command := c\<rparr>,
       Some (Errorf (''unrecognized SOCKS version['' @ Itoa (uint v) @ '']''))), r)"
  unfolding Parse_def read_sizes
  by (simp add: ReadFull_two const_defs)

lemma Parse_bad_command:
  "v = 4 \<or> v = 5 \<Longrightarrow> c \<noteq> 1 \<Longrightarrow> c \<noteq> 2 \<Longrightarrow> c \<noteq> 3 \<Longrightarrow> Parse (Data v # Data c # r) =
     ((zero_Header\<lparr>Version := v, Command := c\<rparr>,
       Some (Errorf (''unrecognized command['' @ Itoa (uint c) @ '']''))), r)"
  unfolding Parse_def read_sizes
  by (auto simp add: ReadFull_two const_defs)

lemma Parse_socks4_associate:
  "Parse (Data 4 # Data 3 # r) =
     ((zero_Header\<lparr>Version := 4, Command := 3\<rparr>, Some (Errorf ''wrong version for command'')), r)"
  unfolding Parse_def read_sizes
  by (simp add: ReadFull_two const_defs)

lemma Parse_socks4_fail:
  "c = 1 \<or> c = 2 \<Longrightarrow> ReadFull r 6 = (Inl x, r') \<Longrightarrow> Parse (Data 4 # Data c # r) =
     ((zero_Header\<lparr>Version := 4, Command := c\<rparr>,
       Some (Errorf (''failed to get socks4 header port and ip, '' @ io_Error x))), r')"
  unfolding Parse_def read_sizes
  by (auto simp add: ReadFull_two const_defs)

lemma Parse_socks4_ok:
  "c = 1 \<or> c = 2 \<Longrightarrow> ReadFull r 6 = (Inr tmp, r') \<Longrightarrow> Parse (Data 4 # Data c # r) =
     ((zero_Header\<lparr>Version := 4, Command := c,
         Address := \<lparr>FQDN = [], IP = drop 2 tmp, Port = buildPort (tmp ! 0) (tmp ! 1)\<rparr>\<rparr>,
       None), r')"
  unfolding Parse_def read_sizes
  by (auto simp add: ReadFull_two const_defs zero_Header_def zero_AddrSpec_def)

lemma Parse_socks5_fail:
  "c = 1 \<or> c = 2 \<or> c = 3 \<Longrightarrow> ReadFull r 2 = (Inl x, r') \<Longrightarrow> Parse (Data 5 # Data c # r) =
     ((zero_Header\<lparr>Version := 5, Command := c\<rparr>,
       Some (Errorf (''failed to get header RSV and address type, '' @ io_Error x))), r')"
  unfolding Parse_def read_sizes
  by (auto simp add: ReadFull_two const_defs)

lemma Parse_bad_addrType:
  "c = 1 \<or> c = 2 \<or> c = 3 \<Longrightarrow> t \<noteq> 1 \<Longrightarrow> t \<noteq> 3 \<Longrightarrow> t \<noteq> 4 \<Longrightarrow>
   Parse (Data 5 # Data c # Data rsv # Data t # r) =
     ((zero_Header\<lparr>Version := 5, Command := c, Reserved := rsv, addrType := t\<rparr>,
       Some unrecognizedAddrType), r)"
  unfolding Parse_def read_sizes
  by (auto simp add: ReadFull_two const_defs)

lemma Parse_ipv4_fail:
  "c = 1 \<or> c = 2 \<or> c = 3 \<Longrightarrow> ReadFull r 6 = (Inl x, r') \<Longrightarrow>
   Parse (Data 5 # Data c # Data rsv # Data 1 # r) =
     ((zero_Header\<lparr>Version := 5, Command := c, Reserved := rsv, addrType := 1\<rparr>,
       Some (Errorf (''failed to get header, '' @ io_Error x))), r')"
  unfolding Parse_def read_sizes
  by (auto simp add: ReadFull_two const_defs)

lemma Parse_ipv4_ok:
  "c = 1 \<or> c = 2 \<or> c = 3 \<Longrightarrow> ReadFull r 6 = (Inr addr, r') \<Longrightarrow>
   Parse (Data 5 # Data c # Data rsv # Data 1 # r) =
     ((zero_Header\<lparr>Version := 5, Command := c, Reserved := rsv,
         Address := \<lparr>FQDN = [], IP = take 4 addr, Port = buildPort (addr ! 4) (addr ! 5)\<rparr>,
         addrType := 1\<rparr>, None), r')"
  unfolding Parse_def read_sizes
  by (auto simp add: ReadFull_two const_defs zero_Header_def zero_AddrSpec_def)

lemma Parse_ipv6_fail:
  "c = 1 \<or> c = 2 \<or> c = 3 \<Longrightarrow> ReadFull r 18 = (Inl x, r') \<Longrightarrow>
   Parse (Data 5 # Data c # Data rsv # Data 4 # r) =
     ((zero_Header\<lparr>Version := 5, Command := c, Reserved := rsv, addrType := 4\<rparr>,
       Some (Errorf (''failed to get header, '' @ io_Error x))), r')"
  unfolding Parse_def read_sizes
  by (auto simp add: ReadFull_two const_defs)

lemma Parse_ipv6_ok:
  "c = 1 \<or> c = 2 \<or> c = 3 \<Longrightarrow> ReadFull r 18 = (Inr addr, r') \<Longrightarrow>
   Parse (Data 5 # Data c # Data rsv # Data 4 # r) =
     ((zero_Header\<lparr>Version := 5, Command := c, Reserved := rsv,
         Address := \<lparr>FQDN = [], IP = take 16 addr, Port = buildPort (addr ! 16) (addr ! 17)\<rparr>,
         addrType := 4\<rparr>, None), r')"
  unfolding Parse_def read_sizes
  by (auto simp add: ReadFull_two const_defs zero_Header_def zero_AddrSpec_def)

lemma Parse_fqdn_length_fail:
  "c = 1 \<or> c = 2 \<or> c = 3 \<Longrightarrow> ReadFull r 1 = (Inl x, r') \<Longrightarrow>
   Parse (Data 5 # Data c # Data rsv # Data 3 # r) =
     ((zero_Header\<lparr>Version := 5, Command := c, Reserved := rsv, addrType := 3\<rparr>,
       Some (Errorf (''failed to get header, '' @ io_Error x))), r')"
  unfolding Parse_def read_sizes
  by (auto simp add: ReadFull_two const_defs)

lemma Parse_fqdn_fail:
  "c = 1 \<or> c = 2 \<or> c = 3 \<Longrightarrow> ReadFull r (unat n + 2) = (Inl x, r') \<Longrightarrow>
   Parse (Data 5 # Data c # Data rsv # Data 3 # Data n # r) =
     ((zero_Header\<lparr>Version := 5, Command := c, Reserved := rsv, addrType := 3\<rparr>,
       Some (Errorf (''failed to get header, '' @ io_Error x))), r')"
  unfolding Parse_def read_sizes
  by (auto simp add: ReadFull_two ReadFull_one_Suc const_defs Let_def)

lemma Parse_fqdn_ok:
  "c = 1 \<or> c = 2 \<or> c = 3 \<Longrightarrow> ReadFull r (unat n + 2) = (Inr addr, r') \<Longrightarrow>
   Parse (Data 5 # Data c # Data rsv # Data 3 # Data n # r) =
     ((zero_Header\<lparr>Version := 5, Command := c, Reserved := rsv,
         Address := \<lparr>FQDN = string_of_bytes (take (unat n) addr), IP = [],
                     Port = buildPort (addr ! unat n) (addr ! (unat n + 1))\<rparr>,
         addrType := 3\<rparr>, None), r')"
  unfolding Parse_def read_sizes
  by (auto simp add: ReadFull_two ReadFull_one_Suc const_defs zero_Header_def
        zero_AddrSpec_def Let_def)

lemma ReadFull_two_shape:
  assumes "ReadFull r 2 = (Inr tmp, r')"
  shows "r = Data (tmp ! 0) # Data (tmp ! 1) # r'"
proof -
  from ReadFull_Inr[OF assms] have r: "r = map Data tmp @ r'" and l: "length tmp = 2" .
  from l obtain a b where "tmp = [a, b]"
    by (cases tmp; cases "tl tmp") auto
  with r show ?thesis by simp
qed

lemma ReadFull_one_shape:
  assumes "ReadFull r 1 = (Inr tmp, r')"
  shows "r = Data (tmp ! 0) # r'"
proof -
  from ReadFull_Inr[OF assms] have r: "r = map Data tmp @ r'" and l: "length tmp = 1" .
  from l obtain a where "tmp = [a]"
    by (cases tmp) auto
  with r show ?thesis by simp
qed

lemma Parse_outcome [case_names head_fail bad_version bad_command socks4_associate
    socks4_fail socks4_ok socks5_fail bad_addrType ipv4_fail ipv4_ok ipv6_fail ipv6_ok
    fqdn_length_fail fqdn_fail fqdn_ok]:
  obtains
    x r' where "ReadFull r 2 = (Inl x, r')"
  | v c r' where "r = Data v # Data c # r'" "v \<noteq> 4" "v \<noteq> 5"
  | v c r' where "r = Data v # Data c # r'" "v = 4 \<or> v = 5" "c \<noteq> 1" "c \<noteq> 2" "c \<noteq> 3"
  | r' where "r = Data 4 # Data 3 # r'"
  | c r1 x r' where "r = Data 4 # Data c # r1" "c = 1 \<or> c = 2" "ReadFull r1 6 = (Inl x, r')"
  | c r1 tmp r' where "r = Data 4 # Data c # r1" "c = 1 \<or> c = 2" "ReadFull r1 6 = (Inr tmp, r')"
  | c r1 x r' where "r = Data 5 # Data c # r1" "c = 1 \<or> c = 2 \<or> c = 3"
      "ReadFull r1 2 = (Inl x, r')"
  | c rsv t r' where "r = Data 5 # Data c # Data rsv # Data t # r'" "c = 1 \<or> c = 2 \<or> c = 3"
      "t \<noteq> 1" "t \<noteq> 3" "t \<noteq> 4"
  | c rsv r1 x r' where "r = Data 5 # Data c # Data rsv # Data 1 # r1"
      "c = 1 \<or> c = 2 \<or> c = 3" "ReadFull r1 6 = (Inl x, r')"
  | c rsv r1 addr r' where "r = Data 5 # Data c # Data rsv # Data 1 # r1"
      "c = 1 \<or> c = 2 \<or> c = 3" "ReadFull r1 6 = (Inr addr, r')"
  | c rsv r1 x r' where "r = Data 5 # Data c # Data rsv # Data 4 # r1"
      "c = 1 \<or> c = 2 \<or> c = 3" "ReadFull r1 18 = (Inl x, r')"
  | c rsv r1 addr r' where "r = Data 5 # Data c # Data rsv # Data 4 # r1"
      "c = 1 \<or> c = 2 \<or> c = 3" "ReadFull r1 18 = (Inr addr, r')"
  | c rsv r1 x r' where "r = Data 5 # Data c # Data rsv # Data 3 # r1"
      "c = 1 \<or> c = 2 \<or> c = 3" "ReadFull r1 1 = (Inl x, r')"
  | c rsv n r1 x r' where "r = Data 5 # Data c # Data rsv # Data 3 # Data n # r1"
      "c = 1 \<or> c = 2 \<or> c = 3" "ReadFull r1 (unat n + 2) = (Inl x, r')"
  | c rsv n r1 addr r' where "r = Data 5 # Data c # Data rsv # Data 3 # Data n # r1"
      "c = 1 \<or> c = 2 \<or> c = 3" "ReadFull r1 (unat n + 2) = (Inr addr, r')"
proof -
  obtain res0 r1 where rf0: "ReadFull r 2 = (res0, r1)" by (cases "ReadFull r 2")
  show ?thesis
  proof (cases res0)
    case (Inl x)
    then show ?thesis using that(1)[of x r1] rf0 by simp
  next
    case (Inr tmp0)
    with rf0 have "ReadFull r 2 = (Inr tmp0, r1)" by simp
    from ReadFull_two_shape[OF this] obtain v c where r: "r = Data v # Data c # r1"
      by blast
    show ?thesis
    proof (cases "v \<noteq> 4 \<and> v \<noteq> 5")
      case True
      then show ?thesis using that(2)[of v c r1] r by simp
    next
      case ver: False
      show ?thesis
      proof (cases "c \<noteq> 1 \<and> c \<noteq> 2 \<and> c \<noteq> 3")
        case True
        then show ?thesis using that(3)[of v c r1] r ver by blast
      next
        case cmd: False
        show ?thesis
        proof (cases "v = 4")
          case v4: True
          show ?thesis
          proof (cases "c = 3")
            case True
            then show ?thesis using that(4)[of r1] r v4 by simp
          next
            case False
            then have c12: "c = 1 \<or> c = 2" using cmd by blast
            obtain res r2 where rf: "ReadFull r1 6 = (res, r2)" by (cases "ReadFull r1 6")
            show ?thesis
            proof (cases res)
              case (Inl x)
              then show ?thesis using that(5)[of c r1 x r2] r v4 c12 rf by simp
            next
              case (Inr tmp)
              then show ?thesis using that(6)[of c r1 tmp r2] r v4 c12 rf by simp
            qed
          qed
        next
          case False
          then have v5: "v = 5" using ver by simp
          have c123: "c = 1 \<or> c = 2 \<or> c = 3" using cmd by blast
          obtain res r2 where rf: "ReadFull r1 2 = (res, r2)" by (cases "ReadFull r1 2")
          show ?thesis
          proof (cases res)
            case (Inl x)
            then show ?thesis using that(7)[of c r1 x r2] r v5 c123 rf by simp
          next
            case (Inr tmp)
            with rf have "ReadFull r1 2 = (Inr tmp, r2)" by simp
            from ReadFull_two_shape[OF this] obtain rsv t
              where r1: "r1 = Data rsv # Data t # r2" by blast
            consider (other) "t \<noteq> 1" "t \<noteq> 3" "t \<noteq> 4" | (v4) "t = 1" | (v6) "t = 4"
              | (dom) "t = 3" by blast
            then show ?thesis
            proof cases
              case other
              then show ?thesis using that(8)[of c rsv t r2] r r1 v5 c123 by simp
            next
              case v4
              obtain res r3 where rf: "ReadFull r2 6 = (res, r3)" by (cases "ReadFull r2 6")
              show ?thesis
              proof (cases res)
                case (Inl x)
                then show ?thesis using that(9)[of c rsv r2 x r3] r r1 v5 c123 v4 rf by simp
              next
                case (Inr addr)
                then show ?thesis using that(10)[of c rsv r2 addr r3] r r1 v5 c123 v4 rf by simp
              qed
            next
              case v6
              obtain res r3 where rf: "ReadFull r2 18 = (res, r3)" by (cases "ReadFull r2 18")
              show ?thesis
              proof (cases res)
                case (Inl x)
                then show ?thesis using that(11)[of c rsv r2 x r3] r r1 v5 c123 v6 rf by simp
              next
                case (Inr addr)
                then show ?thesis using that(12)[of c rsv r2 addr r3] r r1 v5 c123 v6 rf by simp
              qed
            next
              case dom
              obtain res r3 where rf: "ReadFull r2 1 = (res, r3)" by (cases "ReadFull r2 1")
              show ?thesis
              proof (cases res)
                case (Inl x)
                then show ?thesis using that(13)[of c rsv r2 x r3] r r1 v5 c123 dom rf by simp
              next
                case (Inr len)
                with rf have "ReadFull r2 1 = (Inr len, r3)" by simp
                from ReadFull_one_shape[OF this] obtain n where r2: "r2 = Data n # r3"
                  by blast
                obtain res r4 where rf: "ReadFull r3 (unat n + 2) = (res, r4)"
                  by (cases "ReadFull r3 (unat n + 2)")
                show ?thesis
                proof (cases res)
                  case (Inl x)
                  then show ?thesis
                    using that(14)[of c rsv n r3 x r4] r r1 r2 v5 c123 dom rf by simp
                next
                  case (Inr addr)
                  then show ?thesis
                    using that(15)[of c rsv n r3 addr r4] r r1 r2 v5 c123 dom rf by simp
                qed
              qed
            qed
          qed
        qed
      qed
    qed
  qed
qed

subsection \<open>Parse and Bytes\<close>

lemma take_two_drop:
  "n + 2 \<le> length r \<Longrightarrow> take n r @ r ! n # r ! (n + 1) # drop (n + 2) r = r"
proof -
  assume len: "n + 2 \<le> length r"
  then have "r ! n # r ! (n + 1) # drop (n + 2) r = drop n r"
    by (simp add: Cons_nth_drop_Suc)
  then show ?thesis by simp
qed

lemma first_two_drop:
  assumes "2 \<le> length r"
  shows "r ! 0 # r ! 1 # drop 2 r = r"
  using take_two_drop[of 0 r] assms by (simp add: numeral_2_eq_2)

lemma Parse_Bytes_inverse:
  assumes "Parse B = ((H, None), rest)"
  shows "B = map Data (Bytes H) @ rest"
proof (cases B rule: Parse_outcome)
  case (head_fail x r')
  then show ?thesis using assms by (simp add: Parse_head_fail)
next
  case (bad_version v c r')
  then show ?thesis using assms by (simp add: Parse_bad_version)
next
  case (bad_command v c r')
  then show ?thesis using assms by (simp add: Parse_bad_command)
next
  case (socks4_associate r')
  then show ?thesis using assms by (simp add: Parse_socks4_associate)
next
  case (socks4_fail c r1 x r')
  then show ?thesis using assms by (simp add: Parse_socks4_fail)
next
  case (socks4_ok c r1 tmp r')
  from ReadFull_Inr[OF socks4_ok(3)]
  have r1: "r1 = map Data tmp @ r'" and len: "length tmp = 6" .
  from Parse_socks4_ok[OF socks4_ok(2,3)] assms socks4_ok(1)
  have H: "H = zero_Header\<lparr>Version := 4, Command := c,
         Address := \<lparr>FQDN = [], IP = drop 2 tmp, Port = buildPort (tmp ! 0) (tmp ! 1)\<rparr>\<rparr>"
    and rest: "rest = r'"
    by simp_all
  have "Bytes H = [4, c, tmp ! 0, tmp ! 1] @ drop 2 tmp"
    by (simp add: H Bytes_socks4 breakPort_buildPort)
  then have "Bytes H = 4 # c # tmp"
    using first_two_drop[of tmp] len by simp
  then show ?thesis
    by (simp add: rest socks4_ok(1) r1)
next
  case (socks5_fail c r1 x r')
  then show ?thesis using assms by (simp add: Parse_socks5_fail)
next
  case (bad_addrType c rsv t r')
  then show ?thesis using assms by (simp add: Parse_bad_addrType)
next
  case (ipv4_fail c rsv r1 x r')
  then show ?thesis using assms by (simp add: Parse_ipv4_fail)
next
  case (ipv4_ok c rsv r1 addr r')
  from ReadFull_Inr[OF ipv4_ok(3)]
  have r1: "r1 = map Data addr @ r'" and len: "length addr = 6" .
  from Parse_ipv4_ok[OF ipv4_ok(2,3)] assms ipv4_ok(1)
  have H: "H = zero_Header\<lparr>Version := 5, Command := c, Reserved := rsv,
         Address := \<lparr>FQDN = [], IP = take 4 addr, Port = buildPort (addr ! 4) (addr ! 5)\<rparr>,
         addrType := 1\<rparr>"
    and rest: "rest = r'"
    by simp_all
  have "To4 (take 4 addr) = take 4 addr"
    using len by (simp add: To4_def const_defs)
  then have "Bytes H = [5, c, rsv, 1] @ take 4 addr @ [addr ! 4, addr ! 5]"
    by (simp add: H Bytes_ipv4 breakPort_buildPort)
  then have "Bytes H = 5 # c # rsv # 1 # addr"
    using take_two_drop[of 4 addr] len by simp
  then show ?thesis
    by (simp add: rest ipv4_ok(1) r1)
next
  case (ipv6_fail c rsv r1 x r')
  then show ?thesis using assms by (simp add: Parse_ipv6_fail)
next
  case (ipv6_ok c rsv r1 addr r')
  from ReadFull_Inr[OF ipv6_ok(3)]
  have r1: "r1 = map Data addr @ r'" and len: "length addr = 18" .
  from Parse_ipv6_ok[OF ipv6_ok(2,3)] assms ipv6_ok(1)
  have H: "H = zero_Header\<lparr>Version := 5, Command := c, Reserved := rsv,
         Address := \<lparr>FQDN = [], IP = take 16 addr, Port = buildPort (addr ! 16) (addr ! 17)\<rparr>,
         addrType := 4\<rparr>"
    and rest: "rest = r'"
    by simp_all
  have "To16 (take 16 addr) = take 16 addr"
    using len by (simp add: To16_def const_defs)
  then have "Bytes H = [5, c, rsv, 4] @ take 16 addr @ [addr ! 16, addr ! 17]"
    by (simp add: H Bytes_ipv6 breakPort_buildPort)
  then have "Bytes H = 5 # c # rsv # 4 # addr"
    using take_two_drop[of 16 addr] len by simp
  then show ?thesis
    by (simp add: rest ipv6_ok(1) r1)
next
  case (fqdn_length_fail c rsv r1 x r')
  then show ?thesis using assms by (simp add: Parse_fqdn_length_fail)
next
  case (fqdn_fail c rsv n r1 x r')
  then show ?thesis using assms by (simp add: Parse_fqdn_fail)
next
  case (fqdn_ok c rsv n r1 addr r')
  from ReadFull_Inr[OF fqdn_ok(3)]
  have r1: "r1 = map Data addr @ r'" and len: "length addr = unat n + 2" .
  from Parse_fqdn_ok[OF fqdn_ok(2,3)] assms fqdn_ok(1)
  have H: "H = zero_Header\<lparr>Version := 5, Command := c, Reserved := rsv,
         Address := \<lparr>FQDN = string_of_bytes (take (unat n) addr), IP = [],
                     Port = buildPort (addr ! unat n) (addr ! (unat n + 1))\<rparr>,
         addrType := 3\<rparr>"
    and rest: "rest = r'"
    by simp_all
  have l: "length (string_of_bytes (take (unat n) addr)) = unat n"
    using len by (simp add: length_string_of_bytes)
  have "Bytes H = [5, c, rsv, 3, n] @ take (unat n) addr @ [addr ! unat n, addr ! (unat n + 1)]"
    by (simp add: H Bytes_fqdn breakPort_buildPort bytes_of_string_of_bytes l)
  then have "Bytes H = 5 # c # rsv # 3 # n # addr"
    using take_two_drop[of "unat n" addr] len by simp
  then show ?thesis
    by (simp add: rest fqdn_ok(1) r1)
qed

text \<open>
  Claim C1. Whenever Parse decodes a stream without error into a header \<open>H\<close>, the stream
  is the bytes of \<open>H\<close>, delivered without a failure, followed by what Parse left unread:
  \<open>Bytes H\<close> is, byte for byte, what Parse consumed. This holds for version 4 and for the
  three address types of version 5.
\<close>

theorem Parse_Bytes_roundtrip:
  assumes "Parse B = ((H, None), rest)"
  shows "B = map Data (Bytes H) @ rest"
  using Parse_Bytes_inverse[OF assms] by simp

theorem Parse_Bytes_roundtrip_witness:
  "Parse (map Data [4, 1, 0x1F, 0x90, 127, 0, 0, 1, 9])
     = ((\<lparr>Version = 4, Command = 1, Reserved = 0,
          Address = \<lparr>FQDN = [], IP = [127, 0, 0, 1], Port = 8080\<rparr>, addrType = 0\<rparr>, None),
        map Data [9])
   \<and> map Data [4, 1, 0x1F, 0x90, 127, 0, 0, 1, 9]
     = map Data (Bytes \<lparr>Version = 4, Command = 1, Reserved = 0,
          Address = \<lparr>FQDN = [], IP = [127, 0, 0, 1], Port = 8080\<rparr>, addrType = 0\<rparr>)
       @ map Data [9]
   \<and> Parse (map Data [5, 1, 0, 1, 127, 0, 0, 1, 0x1F, 0x90])
     = ((\<lparr>Version = 5, Command = 1, Reserved = 0,
          Address = \<lparr>FQDN = [], IP = [127, 0, 0, 1], Port = 8080\<rparr>, addrType = 1\<rparr>, None), [])
   \<and> map Data [5, 1, 0, 1, 127, 0, 0, 1, 0x1F, 0x90]
     = map Data (Bytes \<lparr>Version = 5, Command = 1, Reserved = 0,
          Address = \<lparr>FQDN = [], IP = [127, 0, 0, 1], Port = 8080\<rparr>, addrType = 1\<rparr>) @ []
   \<and> Parse (map Data [5, 2, 0, 4, 0, 0, 0, 0, 0, 0, 0, 0, 0, 0, 0, 0, 0, 0, 0, 1, 0, 80, 7, 7])
     = ((\<lparr>Version = 5, Command = 2, Reserved = 0,
          Address = \<lparr>FQDN = [], IP = [0, 0, 0, 0, 0, 0, 0, 0, 0, 0, 0, 0, 0, 0, 0, 1],
                     Port = 80\<rparr>, addrType = 4\<rparr>, None), map Data [7, 7])
   \<and> map Data [5, 2, 0, 4, 0, 0, 0, 0, 0, 0, 0, 0, 0, 0, 0, 0, 0, 0, 0, 1, 0, 80, 7, 7]
     = map Data (Bytes \<lparr>Version = 5, Command = 2, Reserved = 0,
          Address = \<lparr>FQDN = [], IP = [0, 0, 0, 0, 0, 0, 0, 0, 0, 0, 0, 0, 0, 0, 0, 1],
                     Port = 80\<rparr>, addrType = 4\<rparr>) @ map Data [7, 7]
   \<and> Parse (map Data [5, 3, 0, 3, 4, 0x61, 0x2e, 0x69, 0x6f, 0, 80])
     = ((\<lparr>Version = 5, Command = 3, Reserved = 0,
          Address = \<lparr>FQDN = ''a.io'', IP = [], Port = 80\<rparr>, addrType = 3\<rparr>, None), [])
   \<and> map Data [5, 3, 0, 3, 4, 0x61, 0x2e, 0x69, 0x6f, 0, 80]
     = map Data (Bytes \<lparr>Version = 5, Command = 3, Reserved = 0,
          Address = \<lparr>FQDN = ''a.io'', IP = [], Port = 80\<rparr>, addrType = 3\<rparr>) @ []"
proof -
  have p4: "Parse (map Data [4, 1, 0x1F, 0x90, 127, 0, 0, 1, 9])
     = ((\<lparr>Version = 4, Command = 1, Reserved = 0,
          Address = \<lparr>FQDN = [], IP = [127, 0, 0, 1], Port = 8080\<rparr>, addrType = 0\<rparr>, None),
        map Data [9])"
    by code_simp
  have p5: "Parse (map Data [5, 1, 0, 1, 127, 0, 0, 1, 0x1F, 0x90])
     = ((\<lparr>Version = 5, Command = 1, Reserved = 0,
          Address = \<lparr>FQDN = [], IP = [127, 0, 0, 1], Port = 8080\<rparr>, addrType = 1\<rparr>, None), [])"
    by code_simp
  have p6: "Parse (map Data [5, 2, 0, 4, 0, 0, 0, 0, 0, 0, 0, 0, 0, 0, 0, 0, 0, 0, 0, 1, 0, 80, 7, 7])
     = ((\<lparr>Version = 5, Command = 2, Reserved = 0,
          Address = \<lparr>FQDN = [], IP = [0, 0, 0, 0, 0, 0, 0, 0, 0, 0, 0, 0, 0, 0, 0, 1],
                     Port = 80\<rparr>, addrType = 4\<rparr>, None), map Data [7, 7])"
    by code_simp
  have pd: "Parse (map Data [5, 3, 0, 3, 4, 0x61, 0x2e, 0x69, 0x6f, 0, 80])
     = ((\<lparr>Version = 5, Command = 3, Reserved = 0,
          Address = \<lparr>FQDN = ''a.io'', IP = [], Port = 80\<rparr>, addrType = 3\<rparr>, None), [])"
    by code_simp
  show ?thesis
    by (intro conjI)
      (rule p4 p5 p6 pd Parse_Bytes_roundtrip[OF p4] Parse_Bytes_roundtrip[OF p5]
        Parse_Bytes_roundtrip[OF p6] Parse_Bytes_roundtrip[OF pd])+
qed

subsection \<open>The checks of Parse\<close>

lemma Itoa_digit: "Itoa 6 = ''6''" "Itoa 0 = ''0''" "Itoa 9 = ''9''"
  by (simp_all add: Itoa_def formatBits.simps digit_char_def)






text \<open>
  Claim C4 as stated, for every version-5 input, fails: the command is checked before the
  address type is read, so the input 0x05, 0x00, 0x00, 0x02 fails for its command after 2
  bytes.
\<close>

theorem Parse_unknown_addrType_counterexample:
  "Parse [Data 0x05, Data 0x00, Data 0x00, Data 0x02]
     = ((zero_Header\<lparr>Version := 5, Command := 0\<rparr>,
         Some (Errorf ''unrecognized command[0]'')), [Data 0x00, Data 0x02])"
  by (simp add: Parse_bad_command Itoa_digit)

text \<open>
  Claim C4, as the code has it. For every version-5 input whose command byte is 1, 2 or 3
  and whose fourth byte, the address type, is not 1, 3 or 4, Parse fails with
  \<open>unrecognizedAddrType\<close> and has consumed exactly the first 4 bytes.
\<close>

theorem Parse_unknown_addrType:
  assumes "c = ConnectCommand \<or> c = BindCommand \<or> c = AssociateCommand"
    and "t \<noteq> ipv4Address" and "t \<noteq> fqdnAddress" and "t \<noteq> ipv6Address"
  shows "Parse (Data socks5Version # Data c # Data rsv # Data t # r)
           = ((zero_Header\<lparr>Version := socks5Version, Command := c, Reserved := rsv,
                            addrType := t\<rparr>, Some unrecognizedAddrType), r)"
  using assms by (simp add: const_defs Parse_bad_addrType)

theorem Parse_unknown_addrType_witness:
  "(0x01 = ConnectCommand \<or> 0x01 = BindCommand \<or> 0x01 = AssociateCommand)
   \<and> 0x02 \<noteq> ipv4Address \<and> 0x02 \<noteq> fqdnAddress \<and> 0x02 \<noteq> ipv6Address
   \<and> Parse [Data 0x05, Data 0x01, Data 0x00, Data 0x02, Data 9, Data 9]
       = ((\<lparr>Version = 5, Command = 1, Reserved = 0, Address = \<lparr>FQDN = [], IP = [], Port = 0\<rparr>,
            addrType = 2\<rparr>, Some unrecognizedAddrType), [Data 9, Data 9])"
  using Parse_unknown_addrType[of "0x01" "0x02" "0x00" "[Data 9, Data 9]"]
  by (simp add: const_defs zero_Header_def zero_AddrSpec_def)

text \<open>
  Claim C5 as stated, for every version-5 domain-type input, fails: the command is
  checked first, so the input 0x05, 0x00, 0x00, 0x03, 0x00, 0x00, 0x50 with length byte 0
  fails for its command.
\<close>

theorem Parse_fqdn_length_counterexample:
  "Parse [Data 0x05, Data 0x00, Data 0x00, Data 0x03, Data 0x00, Data 0x00, Data 0x50]
     = ((zero_Header\<lparr>Version := 5, Command := 0\<rparr>,
         Some (Errorf ''unrecognized command[0]'')),
        [Data 0x00, Data 0x03, Data 0x00, Data 0x00, Data 0x50])"
  by (simp add: Parse_bad_command Itoa_digit)

text \<open>
  Claim C5, as the code has it. For a version-5 input with the domain address type whose
  command byte is 1, 2 or 3: a length byte 0 followed by the two port bytes decodes to the
  empty domain name without error; after a length byte \<open>N\<close> Parse needs exactly \<open>N + 2\<close>
  further bytes, the \<open>N\<close> bytes of the name and the two of the port, succeeds when the
  stream has them, leaving what follows them, and fails for a short read when the stream
  ends with fewer; with \<open>N = 255\<close> a stream that ends with fewer than 257 further bytes
  fails for a short read.
\<close>

theorem Parse_fqdn_length:
  assumes "c = ConnectCommand \<or> c = BindCommand \<or> c = AssociateCommand"
  shows "Parse (Data socks5Version # Data c # Data rsv # Data fqdnAddress # Data 0
                 # Data p1 # Data p2 # r)
           = ((zero_Header\<lparr>Version := socks5Version, Command := c, Reserved := rsv,
                 Address := \<lparr>FQDN = [], IP = [], Port = buildPort p1 p2\<rparr>,
                 addrType := fqdnAddress\<rparr>, None), r)
       \<and> (unat n + 2 \<le> length bs \<longrightarrow>
            Parse (Data socks5Version # Data c # Data rsv # Data fqdnAddress # Data n
                    # map Data bs @ r)
              = ((zero_Header\<lparr>Version := socks5Version, Command := c, Reserved := rsv,
                    Address := \<lparr>FQDN = string_of_bytes (take (unat n) bs), IP = [],
                                Port = buildPort (bs ! unat n) (bs ! (unat n + 1))\<rparr>,
                    addrType := fqdnAddress\<rparr>, None), map Data (drop (unat n + 2) bs) @ r))
       \<and> (length bs < unat n + 2 \<longrightarrow>
            Parse (Data socks5Version # Data c # Data rsv # Data fqdnAddress # Data n
                    # map Data bs)
              = ((zero_Header\<lparr>Version := socks5Version, Command := c, Reserved := rsv,
                    addrType := fqdnAddress\<rparr>,
                  Some (Errorf (''failed to get header, ''
                    @ io_Error (if bs = [] then EOF else ErrUnexpectedEOF)))), []))
       \<and> (length bs < 257 \<longrightarrow>
            Parse (Data socks5Version # Data c # Data rsv # Data fqdnAddress # Data 255
                    # map Data bs)
              = ((zero_Header\<lparr>Version := socks5Version, Command := c, Reserved := rsv,
                    addrType := fqdnAddress\<rparr>,
                  Some (Errorf (''failed to get header, ''
                    @ io_Error (if bs = [] then EOF else ErrUnexpectedEOF)))), []))"
proof -
  have c: "c = 1 \<or> c = 2 \<or> c = 3"
    using assms by (simp add: const_defs)
  have ok: "unat n + 2 \<le> length bs \<longrightarrow>
            Parse (Data 5 # Data c # Data rsv # Data 3 # Data n # map Data bs @ r)
              = ((zero_Header\<lparr>Version := 5, Command := c, Reserved := rsv,
                    Address := \<lparr>FQDN = string_of_bytes (take (unat n) bs), IP = [],
                                Port = buildPort (bs ! unat n) (bs ! (unat n + 1))\<rparr>,
                    addrType := 3\<rparr>, None), map Data (drop (unat n + 2) bs) @ r)" for n bs
  proof
    assume len: "unat n + 2 \<le> length bs"
    from Parse_fqdn_ok[OF c ReadFull_data[OF len, of r], of rsv] len
    show "Parse (Data 5 # Data c # Data rsv # Data 3 # Data n # map Data bs @ r)
              = ((zero_Header\<lparr>Version := 5, Command := c, Reserved := rsv,
                    Address := \<lparr>FQDN = string_of_bytes (take (unat n) bs), IP = [],
                                Port = buildPort (bs ! unat n) (bs ! (unat n + 1))\<rparr>,
                    addrType := 3\<rparr>, None), map Data (drop (unat n + 2) bs) @ r)"
      by simp
  qed
  have zero: "Parse (Data 5 # Data c # Data rsv # Data 3 # Data 0 # Data p1 # Data p2 # r)
           = ((zero_Header\<lparr>Version := 5, Command := c, Reserved := rsv,
                 Address := \<lparr>FQDN = [], IP = [], Port = buildPort p1 p2\<rparr>,
                 addrType := 3\<rparr>, None), r)"
    using ok[of 0 "[p1, p2]"] by (simp add: string_of_bytes_def)
  have short: "length bs < unat n + 2 \<longrightarrow>
            Parse (Data 5 # Data c # Data rsv # Data 3 # Data n # map Data bs)
              = ((zero_Header\<lparr>Version := 5, Command := c, Reserved := rsv, addrType := 3\<rparr>,
                  Some (Errorf (''failed to get header, ''
                    @ io_Error (if bs = [] then EOF else ErrUnexpectedEOF)))), [])" for n
  proof
    assume len: "length bs < unat n + 2"
    from Parse_fqdn_fail[OF c ReadFull_end[OF len], of rsv]
    show "Parse (Data 5 # Data c # Data rsv # Data 3 # Data n # map Data bs)
              = ((zero_Header\<lparr>Version := 5, Command := c, Reserved := rsv, addrType := 3\<rparr>,
                  Some (Errorf (''failed to get header, ''
                    @ io_Error (if bs = [] then EOF else ErrUnexpectedEOF)))), [])" .
  qed
  have "unat (255 :: byte) = 255" by simp
  then have full: "length bs < 257 \<longrightarrow>
            Parse (Data 5 # Data c # Data rsv # Data 3 # Data 255 # map Data bs)
              = ((zero_Header\<lparr>Version := 5, Command := c, Reserved := rsv, addrType := 3\<rparr>,
                  Some (Errorf (''failed to get header, ''
                    @ io_Error (if bs = [] then EOF else ErrUnexpectedEOF)))), [])"
    using short[of 255] by simp
  show ?thesis
    unfolding const_defs using zero ok[of n bs] short[of n] full by (intro conjI)
qed

theorem Parse_fqdn_length_witness:
  "(0x01 = ConnectCommand \<or> 0x01 = BindCommand \<or> 0x01 = AssociateCommand)
   \<and> Parse [Data 0x05, Data 0x01, Data 0x00, Data 0x03, Data 0x00, Data 0x00, Data 0x50]
       = ((\<lparr>Version = 5, Command = 1, Reserved = 0,
            Address = \<lparr>FQDN = [], IP = [], Port = 80\<rparr>, addrType = 3\<rparr>, None), [])
   \<and> Parse (Data 0x05 # Data 0x01 # Data 0x00 # Data 0x03 # Data 0x02
             # map Data [0x61, 0x62, 0x00, 0x50, 0x07] @ [])
       = ((\<lparr>Version = 5, Command = 1, Reserved = 0,
            Address = \<lparr>FQDN = ''ab'', IP = [], Port = 80\<rparr>, addrType = 3\<rparr>, None),
          [Data 0x07])
   \<and> Parse (Data 0x05 # Data 0x01 # Data 0x00 # Data 0x03 # Data 0x02
             # map Data [0x61, 0x62, 0x00])
       = ((\<lparr>Version = 5, Command = 1, Reserved = 0,
            Address = \<lparr>FQDN = [], IP = [], Port = 0\<rparr>, addrType = 3\<rparr>,
           Some (Errorf ''failed to get header, unexpected EOF'')), [])
   \<and> Parse (Data 0x05 # Data 0x01 # Data 0x00 # Data 0x03 # Data 0xFF
             # map Data (replicate 256 0x61))
       = ((\<lparr>Version = 5, Command = 1, Reserved = 0,
            Address = \<lparr>FQDN = [], IP = [], Port = 0\<rparr>, addrType = 3\<rparr>,
           Some (Errorf ''failed to get header, unexpected EOF'')), [])"
proof -
  have s: "string_of_bytes [0x61, 0x62] = ''ab''"
    by code_simp
  have p: "buildPort 0 0x50 = 80"
    by (simp add: buildPort_def)
  have a: "Parse [Data 0x05, Data 0x01, Data 0x00, Data 0x03, Data 0x00, Data 0x00, Data 0x50]
       = ((\<lparr>Version = 5, Command = 1, Reserved = 0,
            Address = \<lparr>FQDN = [], IP = [], Port = 80\<rparr>, addrType = 3\<rparr>, None), [])"
    using Parse_fqdn_length[of "0x01" "0x00" "0x00" "0x50" "[]" "0x02" "[]",
        THEN conjunct1]
    by (simp add: const_defs zero_Header_def zero_AddrSpec_def p)
  have b: "Parse (Data 0x05 # Data 0x01 # Data 0x00 # Data 0x03 # Data 0x02
             # map Data [0x61, 0x62, 0x00, 0x50, 0x07] @ [])
       = ((\<lparr>Version = 5, Command = 1, Reserved = 0,
            Address = \<lparr>FQDN = ''ab'', IP = [], Port = 80\<rparr>, addrType = 3\<rparr>, None),
          [Data 0x07])"
    using Parse_fqdn_length[of "0x01" "0x00" "0x00" "0x50" "[]" "0x02"
        "[0x61, 0x62, 0x00, 0x50, 0x07]", THEN conjunct2, THEN conjunct1]
    by (simp add: const_defs zero_Header_def zero_AddrSpec_def s p)
  have c: "Parse (Data 0x05 # Data 0x01 # Data 0x00 # Data 0x03 # Data 0x02
             # map Data [0x61, 0x62, 0x00])
       = ((\<lparr>Version = 5, Command = 1, Reserved = 0,
            Address = \<lparr>FQDN = [], IP = [], Port = 0\<rparr>, addrType = 3\<rparr>,
           Some (Errorf ''failed to get header, unexpected EOF'')), [])"
    using Parse_fqdn_length[of "0x01" "0x00" "0x00" "0x50" "[]" "0x02"
        "[0x61, 0x62, 0x00]", THEN conjunct2, THEN conjunct2, THEN conjunct1]
    by (simp add: const_defs zero_Header_def zero_AddrSpec_def)
  have d: "Parse (Data 0x05 # Data 0x01 # Data 0x00 # Data 0x03 # Data 0xFF
             # map Data (replicate 256 0x61))
       = ((\<lparr>Version = 5, Command = 1, Reserved = 0,
            Address = \<lparr>FQDN = [], IP = [], Port = 0\<rparr>, addrType = 3\<rparr>,
           Some (Errorf ''failed to get header, unexpected EOF'')), [])"
    using Parse_fqdn_length[of "0x01" "0x00" "0x00" "0x50" "[]" "0x02"
        "replicate 256 0x61", THEN conjunct2, THEN conjunct2, THEN conjunct2]
    by (simp add: const_defs zero_Header_def zero_AddrSpec_def)
  show ?thesis
    by (intro conjI a b c d) (simp add: const_defs)
qed

subsection \<open>The address of a parsed header\<close>

text \<open>
  Claim C8 as stated, never neither, fails: the input 0x05, 0x01, 0x00, 0x03, 0x00, 0x00,
  0x50 is decoded without error and has an empty domain name and no IP.
\<close>

theorem Parse_AddrSpec_shape_counterexample:
  "Parse [Data 0x05, Data 0x01, Data 0x00, Data 0x03, Data 0x00, Data 0x00, Data 0x50]
     = ((\<lparr>Version = 5, Command = 1, Reserved = 0,
          Address = \<lparr>FQDN = [], IP = [], Port = 80\<rparr>, addrType = 3\<rparr>, None), [])"
  by code_simp

text \<open>
  Claim C8, as the code has it. The AddrSpec of a header that Parse decoded without error
  never has both a domain name and an IP; it has neither exactly when the header is a
  version-5 header with the domain address type and length byte 0, whose domain name is
  empty; an IP that is present has 4 or 16 bytes; and the port lies in 0 .. 65535.
  Present means what the code tests: \<open>FQDN != ""\<close> and \<open>0 != len(IP)\<close>.
\<close>

theorem Parse_AddrSpec_shape:
  assumes "Parse r = ((H, None), rest)"
  shows "\<not> (FQDN (Address H) \<noteq> [] \<and> IP (Address H) \<noteq> [])
       \<and> ((FQDN (Address H) = [] \<and> IP (Address H) = [])
            \<longleftrightarrow> (Version H = socks5Version \<and> addrType H = fqdnAddress \<and> r ! 4 = Data 0))
       \<and> (IP (Address H) \<noteq> [] \<longrightarrow>
            length (IP (Address H)) = IPv4len \<or> length (IP (Address H)) = IPv6len)
       \<and> 0 \<le> Port (Address H) \<and> Port (Address H) \<le> 65535"
proof (cases r rule: Parse_outcome)
  case (head_fail x r')
  then show ?thesis using assms by (simp add: Parse_head_fail)
next
  case (bad_version v c r')
  then show ?thesis using assms by (simp add: Parse_bad_version)
next
  case (bad_command v c r')
  then show ?thesis using assms by (simp add: Parse_bad_command)
next
  case (socks4_associate r')
  then show ?thesis using assms by (simp add: Parse_socks4_associate)
next
  case (socks4_fail c r1 x r')
  then show ?thesis using assms by (simp add: Parse_socks4_fail)
next
  case (socks4_ok c r1 tmp r')
  from ReadFull_Inr[OF socks4_ok(3)] have len: "length tmp = 6" by simp
  from Parse_socks4_ok[OF socks4_ok(2,3)] assms socks4_ok(1)
  have H: "H = zero_Header\<lparr>Version := 4, Command := c,
         Address := \<lparr>FQDN = [], IP = drop 2 tmp, Port = buildPort (tmp ! 0) (tmp ! 1)\<rparr>\<rparr>"
    by simp
  show ?thesis
    using len buildPort_range[of "tmp ! 0" "tmp ! 1"]
    by (auto simp add: H const_defs)
next
  case (socks5_fail c r1 x r')
  then show ?thesis using assms by (simp add: Parse_socks5_fail)
next
  case (bad_addrType c rsv t r')
  then show ?thesis using assms by (simp add: Parse_bad_addrType)
next
  case (ipv4_fail c rsv r1 x r')
  then show ?thesis using assms by (simp add: Parse_ipv4_fail)
next
  case (ipv4_ok c rsv r1 addr r')
  from ReadFull_Inr[OF ipv4_ok(3)] have len: "length addr = 6" by simp
  from Parse_ipv4_ok[OF ipv4_ok(2,3)] assms ipv4_ok(1)
  have H: "H = zero_Header\<lparr>Version := 5, Command := c, Reserved := rsv,
         Address := \<lparr>FQDN = [], IP = take 4 addr, Port = buildPort (addr ! 4) (addr ! 5)\<rparr>,
         addrType := 1\<rparr>"
    by simp
  show ?thesis
    using len buildPort_range[of "addr ! 4" "addr ! 5"]
    by (auto simp add: H const_defs)
next
  case (ipv6_fail c rsv r1 x r')
  then show ?thesis using assms by (simp add: Parse_ipv6_fail)
next
  case (ipv6_ok c rsv r1 addr r')
  from ReadFull_Inr[OF ipv6_ok(3)] have len: "length addr = 18" by simp
  from Parse_ipv6_ok[OF ipv6_ok(2,3)] assms ipv6_ok(1)
  have H: "H = zero_Header\<lparr>Version := 5, Command := c, Reserved := rsv,
         Address := \<lparr>FQDN = [], IP = take 16 addr, Port = buildPort (addr ! 16) (addr ! 17)\<rparr>,
         addrType := 4\<rparr>"
    by simp
  show ?thesis
    using len buildPort_range[of "addr ! 16" "addr ! 17"]
    by (auto simp add: H const_defs)
next
  case (fqdn_length_fail c rsv r1 x r')
  then show ?thesis using assms by (simp add: Parse_fqdn_length_fail)
next
  case (fqdn_fail c rsv n r1 x r')
  then show ?thesis using assms by (simp add: Parse_fqdn_fail)
next
  case (fqdn_ok c rsv n r1 addr r')
  from ReadFull_Inr[OF fqdn_ok(3)] have len: "length addr = unat n + 2" by simp
  from Parse_fqdn_ok[OF fqdn_ok(2,3)] assms fqdn_ok(1)
  have H: "H = zero_Header\<lparr>Version := 5, Command := c, Reserved := rsv,
         Address := \<lparr>FQDN = string_of_bytes (take (unat n) addr), IP = [],
                     Port = buildPort (addr ! unat n) (addr ! (unat n + 1))\<rparr>,
         addrType := 3\<rparr>"
    by simp
  have "(string_of_bytes (take (unat n) addr) = []) = (n = 0)"
    using len by (auto simp add: string_of_bytes_def unat_eq_0)
  then show ?thesis
    using buildPort_range[of "addr ! unat n" "addr ! (unat n + 1)"]
    by (simp add: H const_defs fqdn_ok(1))
qed

theorem Parse_AddrSpec_shape_witness:
  "Parse (map Data [0x05, 0x01, 0x00, 0x03, 0x02, 0x61, 0x62, 0xFF, 0xFF])
     = ((\<lparr>Version = 5, Command = 1, Reserved = 0,
          Address = \<lparr>FQDN = ''ab'', IP = [], Port = 65535\<rparr>, addrType = 3\<rparr>, None), [])
   \<and> \<not> (FQDN \<lparr>FQDN = ''ab'', IP = [], Port = 65535\<rparr> \<noteq> []
          \<and> IP \<lparr>FQDN = ''ab'', IP = [], Port = 65535\<rparr> \<noteq> [])
   \<and> Port \<lparr>FQDN = ''ab'', IP = [], Port = 65535\<rparr> \<le> 65535
   \<and> Parse (map Data [0x04, 0x01, 0x00, 0x50, 10, 0, 0, 7])
     = ((\<lparr>Version = 4, Command = 1, Reserved = 0,
          Address = \<lparr>FQDN = [], IP = [10, 0, 0, 7], Port = 80\<rparr>, addrType = 0\<rparr>, None), [])
   \<and> IP \<lparr>FQDN = [], IP = [10, 0, 0, 7], Port = 80\<rparr> \<noteq> []
   \<and> length (IP \<lparr>FQDN = [], IP = [10, 0, 0, 7], Port = 80\<rparr>) = IPv4len"
proof -
  have p: "Parse (map Data [0x05, 0x01, 0x00, 0x03, 0x02, 0x61, 0x62, 0xFF, 0xFF])
     = ((\<lparr>Version = 5, Command = 1, Reserved = 0,
          Address = \<lparr>FQDN = ''ab'', IP = [], Port = 65535\<rparr>, addrType = 3\<rparr>, None), [])"
    by code_simp
  have q: "Parse (map Data [0x04, 0x01, 0x00, 0x50, 10, 0, 0, 7])
     = ((\<lparr>Version = 4, Command = 1, Reserved = 0,
          Address = \<lparr>FQDN = [], IP = [10, 0, 0, 7], Port = 80\<rparr>, addrType = 0\<rparr>, None), [])"
    by code_simp
  show ?thesis
    using p q Parse_AddrSpec_shape[OF p] Parse_AddrSpec_shape[OF q] by (simp add: const_defs)
qed

subsection \<open>The errors of Parse\<close>














end
